theory Spec2Isabelle
  imports Complex_Main "HOL-Library.AList" "HOL-Library.Log_Nat"
begin

section \<open>Python values, exceptions and the outside world\<close>

text \<open>
  The program is \<^verbatim>\<open>src/cli/fluxcli.py\<close>. It talks JSON over HTTP, so the values that
  travel are JSON values. A Python \<^verbatim>\<open>dict\<close> keeps its keys in insertion order and an
  update of an existing key keeps the key's place: an association list with
  \<^const>\<open>AList.update\<close> and \<^const>\<open>map_of\<close>.
\<close>

datatype json =
    JNull
  | JBool bool
  | JInt int
  | JFloat rat
  | JStr string
  | JArr "json list"
  | JObj "(string \<times> json) list"

type_synonym pydict = "(string \<times> json) list"

text \<open>Every exception the modelled code can raise or let through.\<close>

datatype exn =
    ValueError string
  | KeyError string
  | TypeError
  | AttributeError
  | ZeroDivisionError
  | RequestException
  | JSONDecodeError
  | OSError
  | OverflowError
  | MemoryError

text \<open>
  What \<^verbatim>\<open>requests.get\<close>/\<^verbatim>\<open>requests.post\<close> give back: either the call raises
  (no connection), or there is a response whose body is JSON (\<open>Some\<close>) or is not
  (\<open>None\<close>, then \<^verbatim>\<open>response.json()\<close> raises).
\<close>

datatype http_response = NoResponse | Response "json option"

datatype http_call =
    Post string pydict
  | GetResult json
  | Download string

text \<open>The lines the program prints on stderr, each with the value it interpolates.\<close>

datatype message =
    ProcessingImage
  | ProcessingAttempt nat nat
  | TaskFailed json
  | TimeoutWaiting
  | FailedToStart string
  | ConvertWarning exn
  | ErrorFetching string
  | ErrorSaving
  | UnexpectedError exn

record world =
  requests :: "http_call list"
  stderr :: "message list"
  slept :: nat
  files :: "(string \<times> nat list) list"

definition world0 :: world where
  "world0 = \<lparr>requests = [], stderr = [], slept = 0, files = []\<rparr>"

definition print_stderr :: "message \<Rightarrow> world \<Rightarrow> world" where
  "print_stderr m w = w\<lparr>stderr := stderr w @ [m]\<rparr>"

definition sleep :: "nat \<Rightarrow> world \<Rightarrow> world" where
  "sleep n w = w\<lparr>slept := slept w + n\<rparr>"

fun is_query :: "http_call \<Rightarrow> bool" where
  "is_query (GetResult _) = True"
| "is_query _ = False"

text \<open>The number of status queries (GET \<^verbatim>\<open>/v1/get_result\<close>) made so far.\<close>

definition queries :: "world \<Rightarrow> nat" where
  "queries w = length (filter is_query (requests w))"

type_synonym bytes = "nat list"

text \<open>
  A decoded image as Pillow holds it, as far as the program looks at it: its size, its
  mode, and a handle on its pixel data.
\<close>

record pil_image =
  img_size :: "int \<times> int"
  img_mode :: string
  img_data :: nat

text \<open>What \<^verbatim>\<open>requests.get(url, stream=True)\<close> followed by \<^verbatim>\<open>raise_for_status()\<close> meets.\<close>

datatype download_result =
    DownloadFailed
  | Downloaded "string option" bytes

text \<open>The geometric primitives the program asks \<^verbatim>\<open>ImageDraw\<close> to fill, with their coordinates.\<close>

datatype primitive =
    Rectangle rat rat rat rat
  | Ellipse rat rat rat rat
  | Polygon "(rat \<times> rat) list"

text \<open>
  Everything outside the program is a parameter of the model. The provider:
  \<open>post_reply\<close> answers a submission, \<open>get_reply k\<close> is its answer to the status query
  number \<open>k\<close> (from 0), \<open>download\<close> serves an image URL. The file system: \<open>read_file\<close> and
  \<open>write_file\<close> (\<open>Some OSError\<close> when the write fails). The libraries: \<open>b64encode\<close>,
  \<open>abspath\<close> and \<open>splitext\<close> of the standard library; Pillow's \<open>Image.open\<close> on a path
  and on bytes, \<open>convert\<close>, \<open>save\<close> to a format, whether the memory for a new image of
  a given size can be had (\<open>allocates\<close>), and the set of pixels its rasteriser fills for
  a primitive on a canvas of a given size; and the platform's \<^verbatim>\<open>pow(x, 0.5)\<close>.
\<close>

record env =
  post_reply :: "string \<Rightarrow> pydict \<Rightarrow> http_response"
  get_reply :: "nat \<Rightarrow> http_response"
  download :: "string \<Rightarrow> download_result"
  read_file :: "string \<Rightarrow> exn + bytes"
  write_file :: "string \<Rightarrow> bytes \<Rightarrow> exn option"
  b64encode :: "bytes \<Rightarrow> string"
  abspath :: "string \<Rightarrow> string"
  splitext :: "string \<Rightarrow> string \<times> string"
  image_open_path :: "string \<Rightarrow> exn + pil_image"
  image_open_bytes :: "bytes \<Rightarrow> exn + pil_image"
  image_convert :: "pil_image \<Rightarrow> string \<Rightarrow> exn + pil_image"
  image_save :: "pil_image \<Rightarrow> string \<Rightarrow> exn + bytes"
  allocates :: "int \<times> int \<Rightarrow> bool"
  covers :: "int \<times> int \<Rightarrow> primitive \<Rightarrow> int \<times> int \<Rightarrow> bool"
  pow_half :: "rat \<Rightarrow> rat"

text \<open>
  A silent environment to start concrete runs from: no connection, no files, no
  decodable image, memory for every image, an empty rasteriser.
\<close>

definition env0 :: env where
  "env0 = \<lparr>post_reply = (\<lambda>endpoint payload. NoResponse),
           get_reply = (\<lambda>k. NoResponse),
           download = (\<lambda>url. DownloadFailed),
           read_file = (\<lambda>path. Inl OSError),
           write_file = (\<lambda>path data. None),
           b64encode = (\<lambda>data. []),
           abspath = (\<lambda>path. path),
           splitext = (\<lambda>path. (path, [])),
           image_open_path = (\<lambda>path. Inl OSError),
           image_open_bytes = (\<lambda>data. Inl OSError),
           image_convert = (\<lambda>img mode. Inl OSError),
           image_save = (\<lambda>img fmt. Inl OSError),
           allocates = (\<lambda>size. True),
           covers = (\<lambda>size prim xy. False),
           pow_half = (\<lambda>x. x)\<rparr>"

definition http_get_result :: "env \<Rightarrow> json \<Rightarrow> world \<Rightarrow> http_response \<times> world" where
  "http_get_result env task_id w =
     (get_reply env (queries w), w\<lparr>requests := requests w @ [GetResult task_id]\<rparr>)"

definition http_post :: "env \<Rightarrow> string \<Rightarrow> pydict \<Rightarrow> world \<Rightarrow> http_response \<times> world" where
  "http_post env endpoint payload w =
     (post_reply env endpoint payload, w\<lparr>requests := requests w @ [Post endpoint payload]\<rparr>)"

text \<open>\<^verbatim>\<open>response.json()\<close>\<close>

fun response_json :: "http_response \<Rightarrow> exn + json" where
  "response_json NoResponse = Inl RequestException"
| "response_json (Response None) = Inl JSONDecodeError"
| "response_json (Response (Some j)) = Inr j"

text \<open>\<^verbatim>\<open>v[key]\<close> with a string key: only a dict has string keys.\<close>

fun subscript :: "json \<Rightarrow> string \<Rightarrow> exn + json" where
  "subscript (JObj d) k = (case map_of d k of None \<Rightarrow> Inl (KeyError k) | Some v \<Rightarrow> Inr v)"
| "subscript _ k = Inl TypeError"

text \<open>\<^verbatim>\<open>v.get(key, default)\<close>: only a dict has the method.\<close>

fun py_get :: "json \<Rightarrow> string \<Rightarrow> json \<Rightarrow> exn + json" where
  "py_get (JObj d) k dflt = (case map_of d k of None \<Rightarrow> Inr dflt | Some v \<Rightarrow> Inr v)"
| "py_get _ k dflt = Inl AttributeError"

text \<open>Python truthiness of a JSON value.\<close>

fun truthy :: "json \<Rightarrow> bool" where
  "truthy JNull = False"
| "truthy (JBool b) = b"
| "truthy (JInt i) = (i \<noteq> 0)"
| "truthy (JFloat x) = (x \<noteq> 0)"
| "truthy (JStr s) = (s \<noteq> [])"
| "truthy (JArr xs) = (xs \<noteq> [])"
| "truthy (JObj d) = (d \<noteq> [])"

section \<open>\<^verbatim>\<open>FluxAPI.get_task_result\<close>: the poller\<close>

definition max_attempts :: nat where
  "max_attempts = 30"

text \<open>
  The \<^verbatim>\<open>while attempt < max_attempts\<close> loop. One iteration prints the progress line
  unless \<open>silent\<close>, makes one status query, and either returns (\<^verbatim>\<open>'Ready'\<close>: the whole
  result dict; \<^verbatim>\<open>'failed'\<close>: prints the task's error and returns \<^verbatim>\<open>None\<close>), or sleeps 2
  and goes round again. Leaving the loop prints the timeout line and returns \<^verbatim>\<open>None\<close>.
\<close>

function poll_loop :: "env \<Rightarrow> json \<Rightarrow> bool \<Rightarrow> nat \<Rightarrow> world \<Rightarrow> (exn + json option) \<times> world" where
  "poll_loop env task_id silent attempt w =
     (if attempt < max_attempts then
        (let w1 = (if \<not> silent then print_stderr (ProcessingAttempt (attempt + 1) max_attempts) w
                   else w);
             rw = http_get_result env task_id w1;
             w2 = snd rw
         in case response_json (fst rw) of
              Inl e \<Rightarrow> (Inl e, w2)
            | Inr result \<Rightarrow>
                (case subscript result ''status'' of
                   Inl e \<Rightarrow> (Inl e, w2)
                 | Inr status \<Rightarrow>
                     if status = JStr ''Ready'' then (Inr (Some result), w2)
                     else if status = JStr ''failed'' then
                       (case py_get result ''error'' (JStr ''Unknown error'') of
                          Inl e \<Rightarrow> (Inl e, w2)
                        | Inr err \<Rightarrow> (Inr None, print_stderr (TaskFailed err) w2))
                     else poll_loop env task_id silent (attempt + 1) (sleep 2 w2)))
      else (Inr None, print_stderr TimeoutWaiting w))"
  by pat_completeness auto
termination
  by (relation "measure (\<lambda>(env, task_id, silent, attempt, w). max_attempts - attempt)") auto

declare poll_loop.simps [simp del]

definition get_task_result :: "env \<Rightarrow> json \<Rightarrow> bool \<Rightarrow> world \<Rightarrow> (exn + json option) \<times> world" where
  "get_task_result env task_id silent w =
     poll_loop env task_id silent 0 (print_stderr ProcessingImage w)"

text \<open>
  Predicates used to state the properties of the poller: the status a provider answer
  carries (when the answer is a JSON object that has one), whether that answer leaves
  the job pending, and the world after one iteration that found the job pending.
\<close>

fun status_of :: "http_response \<Rightarrow> json option" where
  "status_of (Response (Some (JObj d))) = map_of d ''status''"
| "status_of _ = None"

definition pending :: "http_response \<Rightarrow> bool" where
  "pending r = (case status_of r of None \<Rightarrow> False
                | Some st \<Rightarrow> st \<noteq> JStr ''Ready'' \<and> st \<noteq> JStr ''failed'')"

definition is_progress :: "message \<Rightarrow> bool" where
  "is_progress m = (case m of ProcessingAttempt a b \<Rightarrow> True | _ \<Rightarrow> False)"

definition after_wait :: "env \<Rightarrow> json \<Rightarrow> bool \<Rightarrow> nat \<Rightarrow> world \<Rightarrow> world" where
  "after_wait env t s attempt w =
     sleep 2 (snd (http_get_result env t
        (if \<not> s then print_stderr (ProcessingAttempt (attempt + 1) max_attempts) w else w)))"


section \<open>Python floats\<close>

text \<open>
  A Python \<^verbatim>\<open>float\<close> is an IEEE 754 binary64 number. Its finite values are rationals, and
  every basic operation returns the exact result rounded to the nearest number with a
  53-bit significand, ties to even. That rounding is \<open>fl\<close>. The exponent range is not
  modelled: the values below stay far inside it for image sizes under \<open>2^31\<close>.
\<close>

text \<open>The binary exponent of a positive rational: the \<open>e\<close> with \<open>2^e \<le> x < 2^(e+1)\<close>.\<close>

definition ilog2 :: "rat \<Rightarrow> int" where
  "ilog2 x =
     (let d = bitlen (fst (quotient_of x)) - bitlen (snd (quotient_of x))
      in if 2 powi d \<le> x then d else d - 1)"

definition round_half_even :: "rat \<Rightarrow> int" where
  "round_half_even y =
     (let n = \<lfloor>y\<rfloor>; f = y - of_int n
      in if f < 1 / 2 then n
         else if 1 / 2 < f then n + 1
         else if even n then n else n + 1)"

definition fl :: "rat \<Rightarrow> rat" where
  "fl x =
     (if x = 0 then 0
      else (let u = 2 powi (ilog2 \<bar>x\<bar> - 52)
            in of_int (round_half_even (x / u)) * u))"

text \<open>\<^verbatim>\<open>float(n)\<close>, and the conversion of an int operand next to a float one.\<close>

definition float_of_int :: "int \<Rightarrow> rat" where
  "float_of_int n = fl (of_int n)"

definition fmul :: "rat \<Rightarrow> rat \<Rightarrow> rat" where
  "fmul a b = fl (a * b)"

definition fsub :: "rat \<Rightarrow> rat \<Rightarrow> rat" where
  "fsub a b = fl (a - b)"

text \<open>\<^verbatim>\<open>a / b\<close> on floats.\<close>

definition fdiv :: "rat \<Rightarrow> rat \<Rightarrow> exn + rat" where
  "fdiv a b = (if b = 0 then Inl ZeroDivisionError else Inr (fl (a / b)))"

text \<open>\<^verbatim>\<open>a / b\<close> on ints: the quotient of the two integers, rounded once.\<close>

definition true_div :: "int \<Rightarrow> int \<Rightarrow> exn + rat" where
  "true_div a b = (if b = 0 then Inl ZeroDivisionError else Inr (fl (of_int a / of_int b)))"

text \<open>\<^verbatim>\<open>int(x)\<close> on a float: truncation towards zero.\<close>

definition py_int :: "rat \<Rightarrow> int" where
  "py_int x = (if 0 \<le> x then \<lfloor>x\<rfloor> else \<lceil>x\<rceil>)"


section \<open>Submitting a task and waiting for it\<close>

text \<open>
  Each generation method ends with the same lines: post the payload, take the \<^verbatim>\<open>id\<close> of
  the answer, give up with a message when there is none, otherwise poll and return
  \<^verbatim>\<open>result['result']['sample']\<close> when the result has one.
\<close>

definition extract_sample :: "json option \<Rightarrow> exn + json option" where
  "extract_sample r =
     (case r of
        None \<Rightarrow> Inr None
      | Some result \<Rightarrow>
          if \<not> truthy result then Inr None
          else (case py_get result ''result'' (JObj []) of
                  Inl e \<Rightarrow> Inl e
                | Inr inner \<Rightarrow>
                    (case py_get inner ''sample'' JNull of
                       Inl e \<Rightarrow> Inl e
                     | Inr sample \<Rightarrow> if truthy sample then Inr (Some sample) else Inr None)))"

definition run_task :: "env \<Rightarrow> string \<Rightarrow> pydict \<Rightarrow> string \<Rightarrow> world \<Rightarrow> (exn + json option) \<times> world" where
  "run_task env endpoint payload what w =
     (let rw = http_post env endpoint payload w; w1 = snd rw
      in case response_json (fst rw) of
           Inl e \<Rightarrow> (Inl e, w1)
         | Inr body \<Rightarrow>
             (case py_get body ''id'' JNull of
                Inl e \<Rightarrow> (Inl e, w1)
              | Inr task_id \<Rightarrow>
                  if \<not> truthy task_id then (Inr None, print_stderr (FailedToStart what) w1)
                  else (let pw = get_task_result env task_id False w1
                        in case fst pw of
                             Inl e \<Rightarrow> (Inl e, snd pw)
                           | Inr result \<Rightarrow> (extract_sample result, snd pw))))"

section \<open>\<^verbatim>\<open>FluxAPI.generate_image\<close>\<close>

definition model_endpoints :: "(string \<times> string) list" where
  "model_endpoints =
     [(''flux.1.1-pro'', ''/v1/flux-pro-1.1''),
      (''flux.1-pro'', ''/v1/flux-pro''),
      (''flux.1-dev'', ''/v1/flux-dev''),
      (''flux.1.1-ultra'', ''/v1/flux-pro-1.1-ultra'')]"

text \<open>\<^verbatim>\<open>x or d\<close> for an optional int: \<^verbatim>\<open>None\<close> and \<^verbatim>\<open>0\<close> are both falsy.\<close>

definition int_or :: "int option \<Rightarrow> int \<Rightarrow> int option" where
  "int_or x d = (case x of None \<Rightarrow> Some d | Some i \<Rightarrow> if i = 0 then Some d else Some i)"

text \<open>An optional string is truthy when it is there and not empty.\<close>

definition str_truthy :: "string option \<Rightarrow> bool" where
  "str_truthy s = (case s of None \<Rightarrow> False | Some a \<Rightarrow> a \<noteq> [])"

text \<open>The \<^verbatim>\<open>if aspect_ratio: ... else: ...\<close> block: the pair \<^verbatim>\<open>(width, height)\<close> after it.\<close>

definition generate_dims :: "string option \<Rightarrow> int option \<Rightarrow> int option \<Rightarrow> int option \<times> int option" where
  "generate_dims aspect_ratio width height =
     (if str_truthy aspect_ratio then
        (if aspect_ratio = Some ''1:1'' then (Some 1024, Some 1024)
         else if aspect_ratio = Some ''4:3'' then (Some 1024, Some 768)
         else if aspect_ratio = Some ''3:4'' then (Some 768, Some 1024)
         else if aspect_ratio = Some ''16:9'' then (Some 1024, Some 576)
         else if aspect_ratio = Some ''9:16'' then (Some 576, Some 1024)
         else (width, height))
      else (int_or width 1024, int_or height 768))"

fun json_of_int :: "int option \<Rightarrow> json" where
  "json_of_int None = JNull"
| "json_of_int (Some i) = JInt i"

definition generate_payload :: "string \<Rightarrow> int option \<Rightarrow> int option \<Rightarrow> string option \<Rightarrow> pydict" where
  "generate_payload prompt width height aspect_ratio =
     (let wh = generate_dims aspect_ratio width height
      in [(''prompt'', JStr prompt),
          (''width'', json_of_int (fst wh)),
          (''height'', json_of_int (snd wh)),
          (''aspect_ratio'',
             (case aspect_ratio of
                None \<Rightarrow> JNull
              | Some a \<Rightarrow> if a \<noteq> [] then JStr a else JNull))])"

definition generate_image ::
  "env \<Rightarrow> string \<Rightarrow> string \<Rightarrow> int option \<Rightarrow> int option \<Rightarrow> string option \<Rightarrow> world
     \<Rightarrow> (exn + json option) \<times> world" where
  "generate_image env prompt model width height aspect_ratio w =
     (case map_of model_endpoints model of
        None \<Rightarrow> (Inl (ValueError (''Unknown model: '' @ model)), w)
      | Some endpoint \<Rightarrow>
          if endpoint = [] then (Inl (ValueError (''Unknown model: '' @ model)), w)
          else run_task env endpoint (generate_payload prompt width height aspect_ratio)
                 ''generation'' w)"

section \<open>\<^verbatim>\<open>FluxAPI.control_generate\<close>\<close>

definition control_endpoints :: "(string \<times> string) list" where
  "control_endpoints =
     [(''canny'', ''/v1/flux-pro-1.0-canny''),
      (''depth'', ''/v1/flux-pro-1.0-depth''),
      (''pose'', ''/v1/flux-pro-1.0-pose'')]"

definition default_params :: "(string \<times> pydict) list" where
  "default_params =
     [(''canny'', [(''guidance'', JInt 30)]),
      (''depth'', [(''guidance'', JInt 15)]),
      (''pose'', [(''guidance'', JInt 25)])]"

text \<open>\<^verbatim>\<open>d.update(other)\<close>: the keys of \<open>other\<close> in their order, each set in \<open>d\<close>.\<close>

definition dict_update :: "pydict \<Rightarrow> pydict \<Rightarrow> pydict" where
  "dict_update d other = fold (\<lambda>kv acc. AList.update (fst kv) (snd kv) acc) other d"

text \<open>\<^verbatim>\<open>kwargs.get(key, default)\<close> on the keyword dict.\<close>

definition kwargs_get :: "pydict \<Rightarrow> string \<Rightarrow> json \<Rightarrow> json" where
  "kwargs_get kwargs k dflt = (case map_of kwargs k of None \<Rightarrow> dflt | Some v \<Rightarrow> v)"

text \<open>\<^verbatim>\<open>FluxAPI.encode_image\<close>: the bytes of the file, base64-encoded.\<close>

definition encode_image :: "env \<Rightarrow> string \<Rightarrow> exn + string" where
  "encode_image env image_path =
     (case read_file env image_path of Inl e \<Rightarrow> Inl e | Inr data \<Rightarrow> Inr (b64encode env data))"

text \<open>The payload once the control image is encoded: the dict literal, then the two updates.\<close>

definition control_payload :: "string \<Rightarrow> string \<Rightarrow> string \<Rightarrow> pydict \<Rightarrow> pydict" where
  "control_payload control_type image_b64 prompt kwargs =
     dict_update
       (dict_update
          [(''prompt'', JStr prompt),
           (''control_image'', JStr image_b64),
           (''steps'', kwargs_get kwargs ''steps'' (JInt 50)),
           (''output_format'', kwargs_get kwargs ''output_format'' (JStr ''jpeg'')),
           (''safety_tolerance'', kwargs_get kwargs ''safety_tolerance'' (JInt 2))]
          (case map_of default_params control_type of None \<Rightarrow> [] | Some d \<Rightarrow> d))
       kwargs"

definition control_generate ::
  "env \<Rightarrow> string \<Rightarrow> string \<Rightarrow> string \<Rightarrow> pydict \<Rightarrow> world \<Rightarrow> (exn + json option) \<times> world" where
  "control_generate env control_type control_image prompt kwargs w =
     (case map_of control_endpoints control_type of
        None \<Rightarrow> (Inl (ValueError (''Unsupported control type: '' @ control_type)), w)
      | Some endpoint \<Rightarrow>
          (case encode_image env control_image of
             Inl e \<Rightarrow> (Inl e, w)
           | Inr image_b64 \<Rightarrow>
               run_task env endpoint (control_payload control_type image_b64 prompt kwargs)
                 (''control ('' @ control_type @ '')'') w))"

text \<open>The payloads of the submissions in a request log, and whether a log has any call.\<close>

fun payload_of :: "http_call \<Rightarrow> pydict option" where
  "payload_of (Post endpoint payload) = Some payload"
| "payload_of _ = None"

definition posted :: "world \<Rightarrow> pydict list" where
  "posted w = List.map_filter payload_of (requests w)"


section \<open>\<^verbatim>\<open>FluxAPI.create_mask\<close>\<close>

text \<open>
  A Pillow image under construction: its mode, its size and the value of each pixel.
  \<^verbatim>\<open>Image.new(mode, size, colour)\<close> refuses a negative side (\<^verbatim>\<open>ValueError\<close>, in Python), a
  side that does not fit a C \<^verbatim>\<open>int\<close> (\<^verbatim>\<open>OverflowError\<close>, when the size is handed to C), a
  width above \<^verbatim>\<open>INT_MAX / 4 - 1\<close> (\<^verbatim>\<open>MemoryError\<close>, the line-size guard of the C core), and
  an image for which there is no memory (\<^verbatim>\<open>MemoryError\<close>); otherwise it gives every pixel
  the colour. Drawing a primitive with \<^verbatim>\<open>fill\<close> writes that value to the pixels the
  rasteriser covers and leaves the others.
\<close>

record canvas =
  c_mode :: string
  c_size :: "int \<times> int"
  c_pixel :: "int \<times> int \<Rightarrow> nat"

definition INT_MAX :: int where
  "INT_MAX = 2147483647"

definition image_new :: "env \<Rightarrow> string \<Rightarrow> int \<times> int \<Rightarrow> nat \<Rightarrow> exn + canvas" where
  "image_new env mode sz colour =
     (if fst sz < 0 \<or> snd sz < 0 then Inl (ValueError ''Width and height must be >= 0'')
      else if INT_MAX < fst sz \<or> INT_MAX < snd sz then Inl OverflowError
      else if INT_MAX div 4 - 1 < fst sz then Inl MemoryError
      else if \<not> allocates env sz then Inl MemoryError
      else Inr \<lparr>c_mode = mode, c_size = sz, c_pixel = (\<lambda>xy. colour)\<rparr>)"

definition draw_fill :: "env \<Rightarrow> canvas \<Rightarrow> primitive \<Rightarrow> nat \<Rightarrow> canvas" where
  "draw_fill env c prim fill =
     c\<lparr>c_pixel := (\<lambda>xy. if covers env (c_size c) prim xy then fill else c_pixel c xy)\<rparr>"

text \<open>
  The method prints nothing, sends nothing and touches no file: the world goes through
  it as it came.
\<close>

definition create_mask ::
  "env \<Rightarrow> int \<times> int \<Rightarrow> string \<Rightarrow> string \<Rightarrow> world \<Rightarrow> (exn + canvas) \<times> world" where
  "create_mask env sz shape position w =
     (case image_new env ''L'' sz 0 of
        Inl e \<Rightarrow> (Inl e, w)
      | Inr mask_img \<Rightarrow>
          (let width = fst sz; height = snd sz
           in if position = ''ground'' then
                (let horizon_y = fmul (float_of_int height) (fl (65 / 100));
                     y_start = fsub horizon_y (fmul (float_of_int height) (fl (5 / 100)));
                     points = [(0, y_start),
                               (0, of_int height),
                               (of_int width, of_int height),
                               (of_int width, y_start)]
                 in (Inr (draw_fill env mask_img (Polygon points) 255), w))
              else
                (let x1 = fmul (float_of_int width) (fl (25 / 100));
                     y1 = fmul (float_of_int height) (fl (25 / 100));
                     x2 = fmul (float_of_int width) (fl (75 / 100));
                     y2 = fmul (float_of_int height) (fl (75 / 100))
                 in if shape = ''rectangle'' then
                      (Inr (draw_fill env mask_img (Rectangle x1 y1 x2 y2) 255), w)
                    else
                      (let center = (width div 2, height div 2);
                           radius = min width height div 4
                       in (Inr (draw_fill env mask_img
                                  (Ellipse (of_int (fst center - radius))
                                           (of_int (snd center - radius))
                                           (of_int (fst center + radius))
                                           (of_int (snd center + radius))) 255), w)))))"

text \<open>
  Two names for stating what \<open>create_mask\<close> produces: the float the ground branch
  computes for \<^verbatim>\<open>y_start\<close>, and a blank mask with one primitive filled with 255.
\<close>

definition ground_y :: "int \<Rightarrow> rat" where
  "ground_y height =
     fsub (fmul (float_of_int height) (fl (65 / 100)))
          (fmul (float_of_int height) (fl (5 / 100)))"

definition painted :: "env \<Rightarrow> int \<times> int \<Rightarrow> primitive \<Rightarrow> canvas" where
  "painted env sz prim =
     \<lparr>c_mode = ''L'', c_size = sz,
      c_pixel = (\<lambda>xy. if covers env sz prim xy then 255 else 0)\<rparr>"

text \<open>
  A rasteriser to run concrete masks with, in place of Pillow's: a pixel of the image is
  covered when its centre lies in the rectangle, in the ellipse inscribed in the box, or
  in the box around the points of the polygon.
\<close>

fun in_primitive :: "primitive \<Rightarrow> rat \<times> rat \<Rightarrow> bool" where
  "in_primitive (Rectangle x0 y0 x1 y1) (cx, cy) =
     (x0 \<le> cx \<and> cx \<le> x1 \<and> y0 \<le> cy \<and> cy \<le> y1)"
| "in_primitive (Ellipse x0 y0 x1 y1) (cx, cy) =
     ((2 * cx - (x0 + x1))\<^sup>2 * (y1 - y0)\<^sup>2 + (2 * cy - (y0 + y1))\<^sup>2 * (x1 - x0)\<^sup>2
        \<le> (x1 - x0)\<^sup>2 * (y1 - y0)\<^sup>2)"
| "in_primitive (Polygon points) (cx, cy) =
     (list_ex (\<lambda>p. fst p \<le> cx) points \<and> list_ex (\<lambda>p. cx \<le> fst p) points
      \<and> list_ex (\<lambda>p. snd p \<le> cy) points \<and> list_ex (\<lambda>p. cy \<le> snd p) points)"

definition centre_covers :: "int \<times> int \<Rightarrow> primitive \<Rightarrow> int \<times> int \<Rightarrow> bool" where
  "centre_covers sz prim xy =
     (0 \<le> fst xy \<and> fst xy < fst sz \<and> 0 \<le> snd xy \<and> snd xy < snd sz
      \<and> in_primitive prim (of_int (fst xy) + 1 / 2, of_int (snd xy) + 1 / 2))"

section \<open>\<^verbatim>\<open>FluxAPI.img2img\<close>\<close>

text \<open>
  The size sent to the provider. The caller's width and height count only when both are
  given, else the source's own size. Above 1048576 pixels the size is recomputed from
  the source's aspect ratio in float arithmetic; the square root is the platform's
  \<^verbatim>\<open>pow\<close>.
\<close>

definition img2img_dims :: "env \<Rightarrow> int \<times> int \<Rightarrow> int option \<Rightarrow> int option \<Rightarrow> exn + int \<times> int" where
  "img2img_dims env orig width height =
     (let orig_width = fst orig; orig_height = snd orig;
          wh = (case (width, height) of
                  (Some w, Some h) \<Rightarrow> (w, h)
                | _ \<Rightarrow> (orig_width, orig_height))
      in case true_div orig_height orig_width of
           Inl e \<Rightarrow> Inl e
         | Inr aspect_ratio \<Rightarrow>
             (let total_pixels = fst wh * snd wh
              in if total_pixels > 1048576 then
                   (case fdiv (float_of_int 1048576) aspect_ratio of
                      Inl e \<Rightarrow> Inl e
                    | Inr q \<Rightarrow>
                        (let width' = py_int (pow_half env q);
                             height' = py_int (fmul (float_of_int width') aspect_ratio)
                         in Inr (width', height')))
                 else Inr wh))"

definition img2img_payload :: "string \<Rightarrow> string \<Rightarrow> rat \<Rightarrow> int \<times> int \<Rightarrow> pydict" where
  "img2img_payload prompt image_base64 strength wh =
     [(''prompt'', JStr prompt),
      (''image'', JStr image_base64),
      (''strength'', JFloat strength),
      (''width'', JInt (fst wh)),
      (''height'', JInt (snd wh)),
      (''guidance_scale'', JFloat (fl (75 / 10))),
      (''num_inference_steps'', JInt 50),
      (''scheduler'', JStr ''euler_ancestral''),
      (''preserve_init_image_color_profile'', JBool True)]"

definition img2img ::
  "env \<Rightarrow> string \<Rightarrow> string \<Rightarrow> string \<Rightarrow> rat \<Rightarrow> int option \<Rightarrow> int option \<Rightarrow> world
     \<Rightarrow> (exn + json option) \<times> world" where
  "img2img env image_path prompt model strength width height w =
     (case map_of model_endpoints model of
        None \<Rightarrow> (Inl (ValueError (''Unknown model: '' @ model)), w)
      | Some endpoint \<Rightarrow>
          if endpoint = [] then (Inl (ValueError (''Unknown model: '' @ model)), w)
          else (case image_open_path env image_path of
                  Inl e \<Rightarrow> (Inl e, w)
                | Inr img \<Rightarrow>
                    (case img2img_dims env (img_size img) width height of
                       Inl e \<Rightarrow> (Inl e, w)
                     | Inr wh \<Rightarrow>
                         (case image_save env img ''JPEG'' of
                            Inl e \<Rightarrow> (Inl e, w)
                          | Inr jpeg \<Rightarrow>
                              run_task env endpoint
                                (img2img_payload prompt (b64encode env jpeg) strength wh)
                                ''image-to-image'' w))))"


section \<open>The platform's square root\<close>







section \<open>\<^verbatim>\<open>handle_image_url\<close>: fetching and emitting the result\<close>

text \<open>\<^verbatim>\<open>content_type.split('/')[-1].lower()\<close>, on ASCII.\<close>

definition last_segment :: "string \<Rightarrow> string" where
  "last_segment s = rev (takeWhile (\<lambda>c. c \<noteq> CHR ''/'') (rev s))"

definition lower_char :: "char \<Rightarrow> char" where
  "lower_char c =
     (let n = (of_char c :: nat) in if 65 \<le> n \<and> n \<le> 90 then char_of (n + 32) else c)"

definition lower :: "string \<Rightarrow> string" where
  "lower s = map lower_char s"

definition save_format_of :: "string option \<Rightarrow> string" where
  "save_format_of content_type_header =
     (let content_type = (case content_type_header of None \<Rightarrow> ''image/jpeg'' | Some c \<Rightarrow> c);
          original_format = lower (last_segment content_type)
      in if original_format \<in> set [''png'', ''gif''] then original_format else ''jpeg'')"

text \<open>
  The body of the inner \<^verbatim>\<open>try\<close>: decode the bytes, convert to \<^verbatim>\<open>RGBA\<close> (palette image, or
  PNG with an alpha band) or to \<^verbatim>\<open>RGB\<close>, encode as WebP. Each of the three steps can raise.
\<close>

definition convert_webp :: "env \<Rightarrow> bytes \<Rightarrow> string \<Rightarrow> exn + bytes" where
  "convert_webp env image_bytes save_format =
     (case image_open_bytes env image_bytes of
        Inl e \<Rightarrow> Inl e
      | Inr img \<Rightarrow>
          (case image_convert env img
                  (if img_mode img = ''P''
                      \<or> (save_format = ''png'' \<and> CHR ''A'' \<in> set (img_mode img))
                   then ''RGBA'' else ''RGB'') of
             Inl e \<Rightarrow> Inl e
           | Inr converted \<Rightarrow> image_save env converted ''WEBP''))"

text \<open>
  The function returns the JSON text of a dict, or prints an error and leaves through
  \<^verbatim>\<open>sys.exit(1)\<close>: \<open>Inl 1\<close>. \<open>Inr\<close> carries the dict that \<^verbatim>\<open>json.dumps\<close> is given.
\<close>

definition handle_image_url ::
  "env \<Rightarrow> string \<Rightarrow> string option \<Rightarrow> bool \<Rightarrow> bool \<Rightarrow> world \<Rightarrow> (nat + json) \<times> world" where
  "handle_image_url env image_url output_path fetch_base64 to_webp w =
     (let w1 = w\<lparr>requests := requests w @ [Download image_url]\<rparr>
      in case download env image_url of
           DownloadFailed \<Rightarrow> (Inl 1, print_stderr (ErrorFetching image_url) w1)
         | Downloaded content_type image_bytes \<Rightarrow>
             (let save_format = save_format_of content_type;
                  converted =
                    (if to_webp \<and> (str_truthy output_path \<or> fetch_base64) then
                       (case convert_webp env image_bytes save_format of
                          Inl convert_err \<Rightarrow>
                            ((save_format, image_bytes), print_stderr (ConvertWarning convert_err) w1)
                        | Inr webp_bytes \<Rightarrow> ((''webp'', webp_bytes), w1))
                     else ((save_format, image_bytes), w1));
                  final_format = fst (fst converted);
                  final_image_bytes = snd (fst converted);
                  w2 = snd converted
              in if str_truthy output_path then
                   (let path = (case output_path of None \<Rightarrow> [] | Some p \<Rightarrow> p);
                        path' = (if final_format = ''webp'' then fst (splitext env path) @ ''.webp''
                                 else path);
                        abs_output_path = abspath env path'
                    in case write_file env abs_output_path final_image_bytes of
                         Some e \<Rightarrow> (Inl 1, print_stderr ErrorSaving w2)
                       | None \<Rightarrow>
                           (Inr (JObj [(''status'', JStr ''saved''),
                                       (''path'', JStr abs_output_path)]),
                            w2\<lparr>files := files w2 @ [(abs_output_path, final_image_bytes)]\<rparr>))
                 else if fetch_base64 then
                   (Inr (JObj [(''status'', JStr ''success''),
                               (''format'', JStr final_format),
                               (''data'', JStr (b64encode env final_image_bytes))]), w2)
                 else
                   (Inr (JObj [(''status'', JStr ''success''), (''url'', JStr image_url)]), w2)))"


section \<open>Properties of the poller\<close>

lemma pendingE:
  assumes "pending r"
  obtains d st where "r = Response (Some (JObj d))" "map_of d ''status'' = Some st"
    "st \<noteq> JStr ''Ready''" "st \<noteq> JStr ''failed''"
  using assms
  by (cases r rule: status_of.cases) (auto simp: pending_def split: option.splits)

lemma queries_print [simp]: "queries (print_stderr m w) = queries w"
  by (simp add: queries_def print_stderr_def)

lemma queries_sleep [simp]: "queries (sleep n w) = queries w"
  by (simp add: queries_def sleep_def)

lemma queries_get [simp]: "queries (snd (http_get_result env t w)) = Suc (queries w)"
  by (simp add: queries_def http_get_result_def)

lemma fst_get [simp]: "fst (http_get_result env t w) = get_reply env (queries w)"
  by (simp add: http_get_result_def)

lemma stderr_get [simp]: "stderr (snd (http_get_result env t w)) = stderr w"
  by (simp add: http_get_result_def)

lemma stderr_sleep [simp]: "stderr (sleep n w) = stderr w"
  by (simp add: sleep_def)

lemma stderr_print [simp]: "stderr (print_stderr m w) = stderr w @ [m]"
  by (simp add: print_stderr_def)

lemma poll_loop_pending:
  assumes "attempt < max_attempts" "pending (get_reply env (queries w))"
  shows "poll_loop env t s attempt w = poll_loop env t s (Suc attempt) (after_wait env t s attempt w)"
proof -
  from assms(2) obtain d st where r: "get_reply env (queries w) = Response (Some (JObj d))"
    "map_of d ''status'' = Some st" "st \<noteq> JStr ''Ready''" "st \<noteq> JStr ''failed''"
    by (rule pendingE)
  show ?thesis
    using assms(1) r
    by (subst poll_loop.simps) (simp add: after_wait_def Let_def)
qed

lemma queries_after_wait [simp]: "queries (after_wait env t s a w) = Suc (queries w)"
  by (simp add: after_wait_def)

lemma stderr_after_wait:
  "\<exists>ms. stderr (after_wait env t s a w) = stderr w @ ms \<and> (\<forall>m\<in>set ms. is_progress m)"
  by (simp add: after_wait_def is_progress_def)

lemma poll_loop_run:
  assumes "attempt + k \<le> max_attempts" "\<forall>i<k. pending (get_reply env (queries w + i))"
  shows "\<exists>w' ms. poll_loop env t s attempt w = poll_loop env t s (attempt + k) w'
           \<and> queries w' = queries w + k
           \<and> stderr w' = stderr w @ ms \<and> (\<forall>m\<in>set ms. is_progress m)"
  using assms
proof (induction k arbitrary: attempt w)
  case 0
  then show ?case by (intro exI[of _ w] exI[of _ "[]"]) simp
next
  case (Suc k)
  let ?w1 = "after_wait env t s attempt w"
  from Suc.prems have lt: "attempt < max_attempts" by simp
  from Suc.prems(2) have p0: "pending (get_reply env (queries w))" by force
  have step: "poll_loop env t s attempt w = poll_loop env t s (Suc attempt) ?w1"
    by (rule poll_loop_pending[OF lt p0])
  have "\<forall>i<k. pending (get_reply env (queries ?w1 + i))"
    using Suc.prems(2) by (auto dest: spec[of _ "Suc i" for i])
  moreover have "Suc attempt + k \<le> max_attempts" using Suc.prems(1) by simp
  ultimately obtain w' ms where IH:
    "poll_loop env t s (Suc attempt) ?w1 = poll_loop env t s (Suc attempt + k) w'"
    "queries w' = queries ?w1 + k" "stderr w' = stderr ?w1 @ ms" "\<forall>m\<in>set ms. is_progress m"
    using Suc.IH[of "Suc attempt" ?w1] by blast
  obtain ms0 where ms0: "stderr ?w1 = stderr w @ ms0" "\<forall>m\<in>set ms0. is_progress m"
    using stderr_after_wait by blast
  show ?case
    apply (rule exI[of _ w'], rule exI[of _ "ms0 @ ms"])
    using step IH ms0 by auto
qed

lemma poll_loop_bound_aux:
  "max_attempts - attempt = k \<Longrightarrow>
     queries (snd (poll_loop env t s attempt w)) \<le> queries w + k"
proof (induction k arbitrary: attempt w s)
  case 0
  then show ?case by (subst poll_loop.simps) simp
next
  case (Suc k)
  then have lt: "attempt < max_attempts" and k: "max_attempts - Suc attempt = k"
    by simp_all
  have IH: "queries (snd (poll_loop env t s' (Suc attempt) w')) \<le> Suc (queries w + k)"
    if "queries w' = Suc (queries w)" for w' s'
    using Suc.IH[OF k, of s' w'] that by simp
  show ?case
    apply (subst poll_loop.simps)
    using lt by (auto simp: Let_def IH split: sum.splits)
qed

lemma poll_loop_timeout:
  "poll_loop env t s max_attempts w = (Inr None, print_stderr TimeoutWaiting w)"
  by (subst poll_loop.simps) simp

lemma poll_loop_terminal:
  assumes "attempt < max_attempts"
    and "get_reply env (queries w) = Response (Some (JObj d))"
    and "map_of d ''status'' = Some st"
  shows "st = JStr ''Ready'' \<Longrightarrow>
           fst (poll_loop env t s attempt w) = Inr (Some (JObj d))
           \<and> queries (snd (poll_loop env t s attempt w)) = Suc (queries w)"
    and "st = JStr ''failed'' \<Longrightarrow>
           fst (poll_loop env t s attempt w) = Inr None
           \<and> queries (snd (poll_loop env t s attempt w)) = Suc (queries w)
           \<and> last (stderr (snd (poll_loop env t s attempt w))) =
               TaskFailed (case map_of d ''error'' of None \<Rightarrow> JStr ''Unknown error'' | Some e \<Rightarrow> e)"
  using assms
  by (subst poll_loop.simps, simp add: Let_def split: option.splits)+


lemma get_task_result_run:
  assumes "k \<le> max_attempts" "\<forall>i<k. pending (get_reply env (queries w + i))"
  shows "\<exists>w' ms. get_task_result env t s w = poll_loop env t s k w'
           \<and> queries w' = queries w + k
           \<and> stderr w' = stderr w @ [ProcessingImage] @ ms \<and> (\<forall>m\<in>set ms. is_progress m)"
proof -
  let ?w0 = "print_stderr ProcessingImage w"
  have "\<forall>i<k. pending (get_reply env (queries ?w0 + i))" using assms(2) by simp
  from poll_loop_run[of 0 k env ?w0 t s] assms(1) this
  obtain w' ms where "poll_loop env t s 0 ?w0 = poll_loop env t s k w'"
    "queries w' = queries ?w0 + k" "stderr w' = stderr ?w0 @ ms" "\<forall>m\<in>set ms. is_progress m"
    by auto
  then show ?thesis
    by (intro exI[of _ w'] exI[of _ ms]) (simp add: get_task_result_def)
qed

text \<open>
  C1. Let the provider leave the job pending (any status other than the two terminal
  ones, such as \<^verbatim>\<open>Queued\<close> or \<^verbatim>\<open>Processing\<close>) on the first \<open>N\<close> queries, \<open>N < 30\<close>, and
  answer query \<open>N\<close> with a terminal status. Then \<open>get_task_result\<close> makes exactly
  \<open>N + 1\<close> status queries and returns at that answer: on \<^verbatim>\<open>Ready\<close> it returns the whole
  result dict; on \<^verbatim>\<open>failed\<close> it returns \<^verbatim>\<open>None\<close> and the last line it printed on stderr
  is the failure with the provider's \<^verbatim>\<open>error\<close> text (\<^verbatim>\<open>Unknown error\<close> when the answer
  has none). The count of queries is that of the world's request log.
\<close>

theorem poll_returns_at_first_terminal:
  assumes "N < 30"
    and "\<forall>i<N. pending (get_reply env (queries w + i))"
    and "get_reply env (queries w + N) = Response (Some (JObj d))"
    and "map_of d ''status'' = Some st"
  shows "(st = JStr ''Ready'' \<longrightarrow>
            fst (get_task_result env t s w) = Inr (Some (JObj d))
            \<and> queries (snd (get_task_result env t s w)) = queries w + N + 1)
       \<and> (st = JStr ''failed'' \<longrightarrow>
            fst (get_task_result env t s w) = Inr None
            \<and> queries (snd (get_task_result env t s w)) = queries w + N + 1
            \<and> last (stderr (snd (get_task_result env t s w))) =
                TaskFailed (case map_of d ''error'' of
                              None \<Rightarrow> JStr ''Unknown error'' | Some e \<Rightarrow> e))"
proof -
  from assms(1) have le: "N \<le> max_attempts" and lt: "N < max_attempts"
    by (simp_all add: max_attempts_def)
  from get_task_result_run[OF le assms(2), of t s]
  obtain w' where run: "get_task_result env t s w = poll_loop env t s N w'"
    and q: "queries w' = queries w + N"
    by blast
  from assms(3) q have r: "get_reply env (queries w') = Response (Some (JObj d))" by simp
  show ?thesis
    using poll_loop_terminal[OF lt r assms(4), of t s] run q by simp
qed

theorem poll_returns_at_first_terminal_witness:
  "fst (get_task_result
          (env0\<lparr>get_reply := (\<lambda>k. Response (Some (JObj
              (if k < 2 then [(''status'', JStr ''Processing'')]
               else [(''status'', JStr ''failed''), (''error'', JStr ''out of credits'')]))))\<rparr>)
          (JStr ''task-1'') False world0) = Inr None
   \<and> queries (snd (get_task_result
          (env0\<lparr>get_reply := (\<lambda>k. Response (Some (JObj
              (if k < 2 then [(''status'', JStr ''Processing'')]
               else [(''status'', JStr ''failed''), (''error'', JStr ''out of credits'')]))))\<rparr>)
          (JStr ''task-1'') False world0)) = 3
   \<and> last (stderr (snd (get_task_result
          (env0\<lparr>get_reply := (\<lambda>k. Response (Some (JObj
              (if k < 2 then [(''status'', JStr ''Processing'')]
               else [(''status'', JStr ''failed''), (''error'', JStr ''out of credits'')]))))\<rparr>)
          (JStr ''task-1'') False world0))) = TaskFailed (JStr ''out of credits'')"
  using poll_returns_at_first_terminal[of 2
          "(env0\<lparr>get_reply := (\<lambda>k. Response (Some (JObj
              (if k < 2 then [(''status'', JStr ''Processing'')]
               else [(''status'', JStr ''failed''), (''error'', JStr ''out of credits'')]))))\<rparr>)"
          world0
          "[(''status'', JStr ''failed''), (''error'', JStr ''out of credits'')]"
          "JStr ''failed''" "JStr ''task-1''" False]
  by (simp add: pending_def queries_def world0_def env0_def)

text \<open>
  C2. Whatever the provider answers (any sequence of responses, malformed ones
  included), \<open>get_task_result\<close> returns (it is a total function) having made at most
  30 status queries. If the first 30 answers all leave the job pending, it makes
  exactly 30 queries, returns \<^verbatim>\<open>None\<close>, and what it printed is the opening line, progress
  lines only, and the timeout line last: no task-failure line.
\<close>

theorem poll_terminates_within_budget:
  "queries (snd (get_task_result env t s w)) \<le> queries w + 30
   \<and> ((\<forall>i<30. pending (get_reply env (queries w + i))) \<longrightarrow>
         fst (get_task_result env t s w) = Inr None
         \<and> queries (snd (get_task_result env t s w)) = queries w + 30
         \<and> (\<exists>ms. stderr (snd (get_task_result env t s w)) =
                    stderr w @ [ProcessingImage] @ ms @ [TimeoutWaiting]
                  \<and> (\<forall>m\<in>set ms. is_progress m)))"
proof (intro conjI impI)
  show "queries (snd (get_task_result env t s w)) \<le> queries w + 30"
    using poll_loop_bound_aux[of 0 max_attempts env t s "print_stderr ProcessingImage w"]
    by (simp add: get_task_result_def max_attempts_def)
next
  assume "\<forall>i<30. pending (get_reply env (queries w + i))"
  then have "\<forall>i<max_attempts. pending (get_reply env (queries w + i))"
    by (simp add: max_attempts_def)
  from get_task_result_run[OF order_refl this, of t s]
  obtain w' ms where run: "get_task_result env t s w = poll_loop env t s max_attempts w'"
    and q: "queries w' = queries w + max_attempts"
    and e: "stderr w' = stderr w @ [ProcessingImage] @ ms" "\<forall>m\<in>set ms. is_progress m"
    by blast
  from run have res: "get_task_result env t s w = (Inr None, print_stderr TimeoutWaiting w')"
    by (simp add: poll_loop_timeout)
  show "fst (get_task_result env t s w) = Inr None" using res by simp
  show "queries (snd (get_task_result env t s w)) = queries w + 30"
    using res q by (simp add: max_attempts_def)
  show "\<exists>ms. stderr (snd (get_task_result env t s w)) =
               stderr w @ [ProcessingImage] @ ms @ [TimeoutWaiting]
             \<and> (\<forall>m\<in>set ms. is_progress m)"
    using res e by (intro exI[of _ ms]) simp
qed

theorem poll_terminates_within_budget_witness:
  "fst (get_task_result
          (env0\<lparr>get_reply := (\<lambda>k. Response (Some (JObj [(''status'', JStr ''Processing'')])))\<rparr>)
          (JStr ''task-1'') True world0) = Inr None
   \<and> queries (snd (get_task_result
          (env0\<lparr>get_reply := (\<lambda>k. Response (Some (JObj [(''status'', JStr ''Processing'')])))\<rparr>)
          (JStr ''task-1'') True world0)) = 30"
  using poll_terminates_within_budget[of
          "(env0\<lparr>get_reply := (\<lambda>k. Response (Some (JObj [(''status'', JStr ''Processing'')])))\<rparr>)"
          "JStr ''task-1''" True world0]
  by (simp add: pending_def queries_def world0_def env0_def)

text \<open>
  C10. The status test is exact. Let the first 30 answers be one and the same JSON
  object whose \<^verbatim>\<open>status\<close> is \<open>st\<close>. If \<open>st\<close> is the string \<^verbatim>\<open>Ready\<close> or the string
  \<^verbatim>\<open>failed\<close>, the poller returns after one query. For every other value of \<open>st\<close>
  (another spelling such as \<^verbatim>\<open>Failed\<close>, an unknown string, a value that is not a string)
  it polls 30 times, returns \<^verbatim>\<open>None\<close> and ends with the timeout line, having printed no
  task-failure line.
\<close>

theorem status_matching_exact:
  assumes "\<forall>i<30. get_reply env (queries w + i) = Response (Some (JObj d))"
    and "map_of d ''status'' = Some st"
  shows "(st = JStr ''Ready'' \<or> st = JStr ''failed'' \<longrightarrow>
            queries (snd (get_task_result env t s w)) = queries w + 1)
       \<and> (st \<noteq> JStr ''Ready'' \<and> st \<noteq> JStr ''failed'' \<longrightarrow>
            fst (get_task_result env t s w) = Inr None
            \<and> queries (snd (get_task_result env t s w)) = queries w + 30
            \<and> last (stderr (snd (get_task_result env t s w))) = TimeoutWaiting
            \<and> (\<forall>e. TaskFailed e \<notin> set (stderr (snd (get_task_result env t s w)))
                                    - set (stderr w)))"
proof (intro conjI impI)
  assume tm: "st = JStr ''Ready'' \<or> st = JStr ''failed''"
  have r: "get_reply env (queries (print_stderr ProcessingImage w)) = Response (Some (JObj d))"
    using assms(1)[rule_format, of 0] by simp
  have lt: "0 < max_attempts" by (simp add: max_attempts_def)
  show "queries (snd (get_task_result env t s w)) = queries w + 1"
    using tm poll_loop_terminal[OF lt r assms(2), of t s]
    by (auto simp: get_task_result_def)
next
  assume nt: "st \<noteq> JStr ''Ready'' \<and> st \<noteq> JStr ''failed''"
  have "\<forall>i<max_attempts. pending (get_reply env (queries w + i))"
    using assms nt by (simp add: max_attempts_def pending_def)
  from get_task_result_run[OF order_refl this, of t s]
  obtain w' ms where run: "get_task_result env t s w = poll_loop env t s max_attempts w'"
    and q: "queries w' = queries w + max_attempts"
    and e: "stderr w' = stderr w @ [ProcessingImage] @ ms" "\<forall>m\<in>set ms. is_progress m"
    by blast
  from run have res: "get_task_result env t s w = (Inr None, print_stderr TimeoutWaiting w')"
    by (simp add: poll_loop_timeout)
  show "fst (get_task_result env t s w) = Inr None" using res by simp
  show "queries (snd (get_task_result env t s w)) = queries w + 30"
    using res q by (simp add: max_attempts_def)
  show "last (stderr (snd (get_task_result env t s w))) = TimeoutWaiting"
    using res by simp
  show "\<forall>e. TaskFailed e \<notin> set (stderr (snd (get_task_result env t s w))) - set (stderr w)"
    using res e by (auto simp: is_progress_def)
qed

theorem status_matching_exact_witness:
  "fst (get_task_result
          (env0\<lparr>get_reply := (\<lambda>k. Response (Some (JObj
              [(''status'', JStr ''Failed''), (''error'', JStr ''out of credits'')])))\<rparr>)
          (JStr ''task-1'') False world0) = Inr None
   \<and> queries (snd (get_task_result
          (env0\<lparr>get_reply := (\<lambda>k. Response (Some (JObj
              [(''status'', JStr ''Failed''), (''error'', JStr ''out of credits'')])))\<rparr>)
          (JStr ''task-1'') False world0)) = 30
   \<and> last (stderr (snd (get_task_result
          (env0\<lparr>get_reply := (\<lambda>k. Response (Some (JObj
              [(''status'', JStr ''Failed''), (''error'', JStr ''out of credits'')])))\<rparr>)
          (JStr ''task-1'') False world0))) = TimeoutWaiting"
  using status_matching_exact[of
          "(env0\<lparr>get_reply := (\<lambda>k. Response (Some (JObj
              [(''status'', JStr ''Failed''), (''error'', JStr ''out of credits'')])))\<rparr>)"
          world0
          "[(''status'', JStr ''Failed''), (''error'', JStr ''out of credits'')]"
          "JStr ''Failed''" "JStr ''task-1''" False]
  by (simp add: queries_def world0_def env0_def)


section \<open>Rounding to binary64\<close>

lemma bitlen_rat_bounds:
  assumes "0 < p"
  shows "2 powi (bitlen p - 1) \<le> (of_int p :: rat)" "(of_int p :: rat) < 2 powi bitlen p"
proof -
  have b1: "1 \<le> bitlen p"
    using assms bitlen_eq_zero_iff[of p] bitlen_nonneg[of p] by linarith
  from bitlen_bounds[OF assms] have "2 ^ nat (bitlen p - 1) \<le> p" "p < 2 ^ nat (bitlen p)"
    by simp_all
  then have "(2::rat) ^ nat (bitlen p - 1) \<le> of_int p" "(of_int p :: rat) < 2 ^ nat (bitlen p)"
    by (simp_all add: of_int_less_numeral_power_cancel_iff numeral_power_le_of_int_cancel_iff)
  then show "2 powi (bitlen p - 1) \<le> (of_int p :: rat)" "(of_int p :: rat) < 2 powi bitlen p"
    using b1 by (simp_all add: power_int_nonneg_exp)
qed

lemma ilog2_bounds:
  assumes "0 < x"
  shows "2 powi ilog2 x \<le> x" "x < 2 powi (ilog2 x + 1)"
proof -
  obtain p q where pq: "quotient_of x = (p, q)" by force
  have q: "0 < q" using quotient_of_denom_pos[OF pq] .
  have x: "x = of_int p / of_int q" using quotient_of_div[OF pq] .
  have p: "0 < p" using assms q by (simp add: x zero_less_divide_iff)
  define d where "d = bitlen p - bitlen q"
  have qr: "0 < (of_int q :: rat)" using q by simp
  note P = bitlen_rat_bounds[OF p] and Q = bitlen_rat_bounds[OF q]
  have up: "x < 2 powi (d + 1)"
  proof -
    have "x < 2 powi bitlen p / of_int q"
      unfolding x using P(2) qr by (simp add: divide_strict_right_mono)
    also have "\<dots> \<le> 2 powi bitlen p / 2 powi (bitlen q - 1)"
      using Q(1) qr by (intro divide_left_mono) (simp_all add: zero_less_mult_iff)
    also have "\<dots> = 2 powi (d + 1)"
      unfolding d_def by (simp add: power_int_diff[symmetric] algebra_simps)
    finally show ?thesis .
  qed
  have lo: "2 powi (d - 1) \<le> x"
  proof -
    have "2 powi (d - 1) = 2 powi (bitlen p - 1) / (2 powi bitlen q :: rat)"
      unfolding d_def by (simp add: power_int_diff[symmetric] algebra_simps)
    also have "\<dots> \<le> of_int p / 2 powi bitlen q"
      using P(1) by (simp add: divide_right_mono)
    also have "\<dots> \<le> of_int p / of_int q"
      using Q(2) p qr by (intro divide_left_mono) (simp_all add: zero_less_mult_iff)
    finally show ?thesis unfolding x .
  qed
  have il: "ilog2 x = (if 2 powi d \<le> x then d else d - 1)"
    by (simp add: ilog2_def pq d_def Let_def)
  show "2 powi ilog2 x \<le> x" using lo by (simp add: il)
  show "x < 2 powi (ilog2 x + 1)" using up by (auto simp: il)
qed


lemma two_powi_less_exp:
  assumes "(2::rat) powi a < 2 powi b"
  shows "a < b"
proof (rule ccontr)
  assume "\<not> a < b"
  then have "b \<le> a" by simp
  then have "(2::rat) powi b \<le> 2 powi a" by (intro power_int_increasing) simp_all
  with assms show False by simp
qed

lemma ilog2_unique:
  assumes "2 powi e \<le> x" "x < 2 powi (e + 1)"
  shows "ilog2 x = e"
proof -
  have pos: "0 < x" using assms(1) zero_less_power_int[of "2::rat" e] by linarith
  note B = ilog2_bounds[OF pos]
  have "(2::rat) powi ilog2 x < 2 powi (e + 1)" using B(1) assms(2) by linarith
  then have 1: "ilog2 x < e + 1" by (rule two_powi_less_exp)
  have "(2::rat) powi e < 2 powi (ilog2 x + 1)" using B(2) assms(1) by linarith
  then have 2: "e < ilog2 x + 1" by (rule two_powi_less_exp)
  from 1 2 show ?thesis by simp
qed

lemma round_half_even_of_int [simp]: "round_half_even (of_int n) = n"
  by (simp add: round_half_even_def)

lemma round_half_even_error: "\<bar>of_int (round_half_even y) - y\<bar> \<le> 1 / 2"
proof -
  have "of_int \<lfloor>y\<rfloor> \<le> y" "y < of_int \<lfloor>y\<rfloor> + 1" by linarith+
  then show ?thesis
    by (auto simp: round_half_even_def Let_def abs_le_iff)
qed

lemma round_half_even_near:
  assumes "\<bar>y - of_int n\<bar> < 1 / 2"
  shows "round_half_even y = n"
proof -
  from assms have 1: "of_int n - 1 / 2 < y" "y < of_int n + 1 / 2" by linarith+
  have fl: "\<lfloor>y\<rfloor> = n \<or> \<lfloor>y\<rfloor> = n - 1"
  proof -
    have "of_int (n - 1) \<le> y" using 1 by simp
    then have "n - 1 \<le> \<lfloor>y\<rfloor>" by (subst le_floor_iff)
    moreover have "y < of_int (n + 1)" using 1 by simp
    then have "\<lfloor>y\<rfloor> < n + 1" by (subst floor_less_iff)
    ultimately show ?thesis by linarith
  qed
  then show ?thesis
  proof
    assume f: "\<lfloor>y\<rfloor> = n"
    then have "y - of_int n < 1 / 2" using 1 by simp
    then show ?thesis by (simp add: round_half_even_def f)
  next
    assume f: "\<lfloor>y\<rfloor> = n - 1"
    then have "1 / 2 < y - of_int (n - 1)" using 1 by simp
    then show ?thesis by (simp add: round_half_even_def f)
  qed
qed

lemma fl_near:
  assumes "0 < x" "\<bar>x - of_int n * 2 powi (ilog2 x - 52)\<bar> < 2 powi (ilog2 x - 52) / 2"
  shows "fl x = of_int n * 2 powi (ilog2 x - 52)"
proof -
  define u :: rat where "u = 2 powi (ilog2 x - 52)"
  have u: "0 < u" by (simp add: u_def)
  have "x / u - of_int n = (x - of_int n * u) / u"
    using u by (simp add: field_simps)
  then have "\<bar>x / u - of_int n\<bar> = \<bar>x - of_int n * u\<bar> / \<bar>u\<bar>"
    by (simp only: abs_divide)
  also have "\<dots> = \<bar>x - of_int n * u\<bar> / u"
    using u by simp
  also have "\<dots> < (u / 2) / u"
    using assms(2) u by (intro divide_strict_right_mono) (simp_all add: u_def)
  finally have "\<bar>x / u - of_int n\<bar> < 1 / 2" using u by simp
  then have "round_half_even (x / u) = n" by (rule round_half_even_near)
  then show ?thesis using assms(1) by (simp add: fl_def Let_def u_def)
qed

lemma fl_error:
  assumes "0 < x"
  shows "\<bar>fl x - x\<bar> \<le> 2 powi (ilog2 x - 53)" "\<bar>fl x - x\<bar> \<le> x / 2 ^ 53"
proof -
  define u :: rat where "u = 2 powi (ilog2 x - 52)"
  have u: "0 < u" by (simp add: u_def)
  have f: "fl x = of_int (round_half_even (x / u)) * u"
    using assms by (simp add: fl_def Let_def u_def)
  have "fl x - x = (of_int (round_half_even (x / u)) - x / u) * u"
    using u by (simp add: f field_simps)
  then have "\<bar>fl x - x\<bar> = \<bar>of_int (round_half_even (x / u)) - x / u\<bar> * \<bar>u\<bar>"
    by (simp only: abs_mult)
  also have "\<dots> = \<bar>of_int (round_half_even (x / u)) - x / u\<bar> * u"
    using u by simp
  also have "\<dots> \<le> (1 / 2) * u"
    using round_half_even_error[of "x / u"] u by (intro mult_right_mono) simp_all
  also have "\<dots> = 2 powi (ilog2 x - 53)"
    by (simp add: u_def power_int_diff)
  finally show 1: "\<bar>fl x - x\<bar> \<le> 2 powi (ilog2 x - 53)" .
  have "(2::rat) powi (ilog2 x - 53) = 2 powi ilog2 x / 2 ^ 53"
    by (simp add: power_int_diff)
  also have "\<dots> \<le> x / 2 ^ 53"
    using ilog2_bounds(1)[OF assms] by (simp add: divide_right_mono)
  finally show "\<bar>fl x - x\<bar> \<le> x / 2 ^ 53" using 1 by linarith
qed

lemma fl_exact:
  assumes "0 < k" "k < 2 ^ 53" "x = of_int k * 2 powi j"
  shows "fl x = x"
proof -
  have pos: "0 < x" using assms by simp
  define e where "e = ilog2 x"
  have "x < 2 ^ 53 * 2 powi j"
    unfolding assms(3) using assms(2)
    by (intro mult_strict_right_mono) (simp_all add: of_int_less_numeral_power_cancel_iff)
  also have "\<dots> = 2 powi (53 + j)" by (simp add: power_int_add)
  finally have "(2::rat) powi e < 2 powi (53 + j)"
    using ilog2_bounds(1)[OF pos] by (simp add: e_def)
  then have "e < 53 + j" by (rule two_powi_less_exp)
  then have nn: "0 \<le> j - e + 52" by simp
  define m where "m = k * 2 ^ nat (j - e + 52)"
  have "x = of_int k * (2 powi (j - e + 52) * 2 powi (e - 52))"
    unfolding assms(3) by (simp add: power_int_add[symmetric])
  also have "2 powi (j - e + 52) = (2::rat) ^ nat (j - e + 52)"
    using nn by (simp add: power_int_nonneg_exp)
  finally have xm: "x = of_int m * 2 powi (e - 52)"
    by (simp add: m_def)
  have z: "x - of_int m * 2 powi (ilog2 x - 52) = 0"
    using xm unfolding e_def by linarith
  have "fl x = of_int m * 2 powi (ilog2 x - 52)"
    by (rule fl_near[OF pos], subst z) simp
  then show ?thesis using xm unfolding e_def by linarith
qed


section \<open>Properties of the request builders\<close>

lemma posted_print [simp]: "posted (print_stderr m w) = posted w"
  by (simp add: posted_def print_stderr_def)

lemma posted_sleep [simp]: "posted (sleep n w) = posted w"
  by (simp add: posted_def sleep_def)

lemma posted_get [simp]: "posted (snd (http_get_result env t w)) = posted w"
  by (simp add: posted_def http_get_result_def List.map_filter_def)

lemma posted_post [simp]: "posted (snd (http_post env e p w)) = posted w @ [p]"
  by (simp add: posted_def http_post_def List.map_filter_def)

lemma posted_poll_loop: "posted (snd (poll_loop env t s attempt w)) = posted w"
proof (induction "max_attempts - attempt" arbitrary: attempt w s)
  case 0
  then show ?case by (subst poll_loop.simps) simp
next
  case (Suc k)
  then have lt: "attempt < max_attempts" and k: "k = max_attempts - Suc attempt"
    by simp_all
  have IH: "posted (snd (poll_loop env t s' (Suc attempt) w')) = posted w'" for w' s'
    using Suc.hyps(1)[OF k] .
  show ?case
    apply (subst poll_loop.simps)
    using lt by (auto simp: Let_def IH split: sum.splits)
qed

lemma posted_get_task_result [simp]: "posted (snd (get_task_result env t s w)) = posted w"
  by (simp add: get_task_result_def posted_poll_loop)

lemma posted_run_task [simp]: "posted (snd (run_task env e p what w)) = posted w @ [p]"
  by (simp add: run_task_def Let_def split: sum.splits)

lemma map_of_dict_update:
  "distinct (map fst other) \<Longrightarrow>
     map_of (dict_update d other) k = (case map_of other k of None \<Rightarrow> map_of d k | Some v \<Rightarrow> Some v)"
  unfolding dict_update_def
proof (induction other arbitrary: d)
  case Nil
  then show ?case by simp
next
  case (Cons x xs)
  obtain a b where x: "x = (a, b)" by (cases x)
  from Cons.prems have d: "distinct (map fst xs)" and nin: "a \<notin> fst ` set xs"
    by (simp_all add: x)
  have none: "map_of xs a = None" using nin by (simp add: map_of_eq_None_iff)
  show ?case
    using Cons.IH[OF d, of "AList.update a b d"] none
    by (auto simp: x update_conv' split: option.splits)
qed

text \<open>
  C3. For a known model, \<open>generate_image\<close> posts one payload. When \<open>aspect_ratio\<close> is one
  of the five keys of the table, the payload's width and height are the table's entry
  (1:1 gives 1024 x 1024, 4:3 gives 1024 x 768, 3:4 gives 768 x 1024, 16:9 gives
  1024 x 576, 9:16 gives 576 x 1024), whatever \<open>width\<close> and \<open>height\<close> the caller passed.
  With no aspect ratio and no width and height, they are 1024 x 768.
\<close>

theorem generate_dims_follow_table:
  assumes "map_of model_endpoints model = Some endpoint"
  shows "((aspect_ratio, tw, th) \<in>
            {(Some ''1:1'', 1024, 1024), (Some ''4:3'', 1024, 768), (Some ''3:4'', 768, 1024),
             (Some ''16:9'', 1024, 576), (Some ''9:16'', 576, 1024)} \<longrightarrow>
          (\<exists>payload. posted (snd (generate_image env prompt model width height aspect_ratio w))
                        = posted w @ [payload]
                    \<and> map_of payload ''width'' = Some (JInt tw)
                    \<and> map_of payload ''height'' = Some (JInt th)))
       \<and> (\<exists>payload. posted (snd (generate_image env prompt model None None None w))
                        = posted w @ [payload]
                    \<and> map_of payload ''width'' = Some (JInt 1024)
                    \<and> map_of payload ''height'' = Some (JInt 768))"
proof -
  have ne: "endpoint \<noteq> []"
    using assms by (auto simp: model_endpoints_def split: if_splits)
  show ?thesis
    using assms ne
    by (auto simp: generate_image_def generate_payload_def generate_dims_def str_truthy_def
        int_or_def Let_def)
qed

theorem generate_dims_follow_table_witness:
  "\<exists>payload. posted (snd (generate_image env0 ''a red fox'' ''flux.1.1-pro''
                             (Some 2000) (Some 2000) (Some ''16:9'') world0)) = [payload]
             \<and> map_of payload ''width'' = Some (JInt 1024)
             \<and> map_of payload ''height'' = Some (JInt 576)"
  using generate_dims_follow_table[of "''flux.1.1-pro''" "''/v1/flux-pro-1.1''"
          "Some ''16:9''" 1024 576 env0 "''a red fox''" "Some 2000" "Some 2000" world0]
  by (simp add: model_endpoints_def posted_def world0_def List.map_filter_def)

text \<open>
  C7. For a known control type and a readable control image, \<open>control_generate\<close> posts
  one payload whose \<^verbatim>\<open>guidance\<close> is the caller's keyword argument \<^verbatim>\<open>guidance\<close> whenever the
  keyword dict has that key, and otherwise the default of the control type: 30 for
  canny, 15 for depth, 25 for pose. The keyword dict, as every Python dict, has no key
  twice.
\<close>

theorem control_guidance_precedence:
  assumes "map_of control_endpoints control_type = Some endpoint"
    and "read_file env control_image = Inr data"
    and "distinct (map fst kwargs)"
  shows "\<exists>payload. posted (snd (control_generate env control_type control_image prompt kwargs w))
                      = posted w @ [payload]
           \<and> map_of payload ''guidance'' =
               Some (case map_of kwargs ''guidance'' of
                       Some v \<Rightarrow> v
                     | None \<Rightarrow> JInt (if control_type = ''canny'' then 30
                                      else if control_type = ''depth'' then 15 else 25))"
proof -
  have ct: "control_type = ''canny'' \<or> control_type = ''depth'' \<or> control_type = ''pose''"
    using assms(1) by (auto simp: control_endpoints_def split: if_splits)
  let ?p = "control_payload control_type (b64encode env data) prompt kwargs"
  have "map_of ?p ''guidance'' =
               Some (case map_of kwargs ''guidance'' of
                       Some v \<Rightarrow> v
                     | None \<Rightarrow> JInt (if control_type = ''canny'' then 30
                                      else if control_type = ''depth'' then 15 else 25))"
    using ct assms(3)
    by (auto simp: control_payload_def map_of_dict_update default_params_def split: option.splits)
  then show ?thesis
    using assms(1,2)
    by (intro exI[of _ ?p]) (simp add: control_generate_def encode_image_def)
qed

theorem control_guidance_precedence_witness:
  "\<exists>payload. posted (snd (control_generate (env0\<lparr>read_file := (\<lambda>path. Inr [137, 80, 78, 71])\<rparr>)
                             ''depth'' ''edges.png'' ''a red fox''
                             [(''steps'', JInt 28), (''guidance'', JInt 40)] world0)) = [payload]
             \<and> map_of payload ''guidance'' = Some (JInt 40)"
  using control_guidance_precedence[of "''depth''" "''/v1/flux-pro-1.0-depth''"
          "env0\<lparr>read_file := (\<lambda>path. Inr [137, 80, 78, 71])\<rparr>" "''edges.png''"
          "[137, 80, 78, 71]" "[(''steps'', JInt 28), (''guidance'', JInt 40)]"
          "''a red fox''" world0]
  by (simp add: control_endpoints_def posted_def world0_def List.map_filter_def)



text \<open>
  C6. A model name outside the endpoint table makes \<open>generate_image\<close> and \<open>img2img\<close>
  raise \<^verbatim>\<open>ValueError\<close>, and a control type outside its table makes \<open>control_generate\<close>
  raise \<^verbatim>\<open>ValueError\<close>, with the world exactly as it was: no request was sent, no file
  read, nothing printed.
\<close>

theorem unsupported_mode_before_network:
  "(model \<notin> {''flux.1.1-pro'', ''flux.1-pro'', ''flux.1-dev'', ''flux.1.1-ultra''} \<longrightarrow>
      generate_image env prompt model width height aspect_ratio w
        = (Inl (ValueError (''Unknown model: '' @ model)), w)
      \<and> img2img env image_path prompt model strength width height w
        = (Inl (ValueError (''Unknown model: '' @ model)), w))
   \<and> (control_type \<notin> {''canny'', ''depth'', ''pose''} \<longrightarrow>
      control_generate env control_type control_image prompt kwargs w
        = (Inl (ValueError (''Unsupported control type: '' @ control_type)), w))"
  by (simp add: generate_image_def img2img_def control_generate_def model_endpoints_def
      control_endpoints_def)

theorem unsupported_mode_before_network_witness:
  "generate_image env0 ''a red fox'' ''flux.2'' None None None world0
     = (Inl (ValueError ''Unknown model: flux.2''), world0)
   \<and> img2img env0 ''fox.png'' ''a red fox'' ''flux.2'' (3 / 4) None None world0
     = (Inl (ValueError ''Unknown model: flux.2''), world0)
   \<and> control_generate env0 ''scribble'' ''fox.png'' ''a red fox'' [] world0
     = (Inl (ValueError ''Unsupported control type: scribble''), world0)"
  using unsupported_mode_before_network[of "''flux.2''" env0 "''a red fox''" None None None world0
      "''fox.png''" "3 / 4" "''scribble''" "''fox.png''" "[]"]
  by simp


section \<open>Properties of the mask\<close>

lemma float_of_int_exact: "0 < n \<Longrightarrow> n < 2 ^ 53 \<Longrightarrow> float_of_int n = of_int n"
  unfolding float_of_int_def by (rule fl_exact[where k = n and j = 0]) simp_all

lemma fl_quarter: "fl (1 / 4) = 1 / 4"
  by (rule trans[OF _ fl_exact[where k = 1 and j = "-2"]]) simp_all

lemma fl_three_quarters: "fl (3 / 4) = 3 / 4"
  by (rule trans[OF _ fl_exact[where k = 3 and j = "-2"]]) simp_all

lemma fmul_quarter:
  assumes "0 < n" "n < 2 ^ 31"
  shows "fmul (float_of_int n) (fl (1 / 4)) = of_int n / 4"
    and "fmul (float_of_int n) (fl (3 / 4)) = 3 * of_int n / 4"
proof -
  have n53: "n < 2 ^ 53" using assms(2) by simp
  have f: "float_of_int n = of_int n" by (rule float_of_int_exact[OF assms(1) n53])
  have p: "(2::rat) powi (-2) = 1 / 4" by simp
  have "fl (of_int n * 2 powi (-2)) = of_int n * 2 powi (-2)"
    by (rule fl_exact[OF assms(1) n53 refl])
  then have a: "fl (of_int n * (1 / 4)) = of_int n * (1 / 4)"
    unfolding p .
  show "fmul (float_of_int n) (fl (1 / 4)) = of_int n / 4"
    unfolding fmul_def f fl_quarter using a by simp
  have n3: "0 < 3 * n" "3 * n < 2 ^ 53" using assms by simp_all
  have "fl (of_int (3 * n) * 2 powi (-2)) = of_int (3 * n) * 2 powi (-2)"
    by (rule fl_exact[OF n3 refl])
  then have b: "fl (of_int (3 * n) * (1 / 4)) = of_int (3 * n) * (1 / 4)"
    unfolding p .
  have c: "of_int n * (3 / 4) = (of_int (3 * n) * (1 / 4) :: rat)" by simp
  show "fmul (float_of_int n) (fl (3 / 4)) = 3 * of_int n / 4"
    unfolding fmul_def f fl_three_quarters c b by simp
qed

lemma fl_65: "fl (65 / 100) = 5854679515581645 / 2 ^ 53"
  by code_simp

lemma fl_05: "fl (5 / 100) = 7205759403792794 / 2 ^ 57"
  by code_simp

lemma two_powi_succ: "(2::rat) powi (e + 1) = 2 * 2 powi e"
  by (simp add: power_int_add)

lemma two_powi_53: "(2::rat) powi (e - 53) = 2 powi e / 2 ^ 53"
  by (simp add: power_int_diff)

lemma fl_drop_small:
  assumes "0 < k" "0 \<le> d" "x = of_int k * 2 powi j + d"
    and "ilog2 x \<le> j + 52" and "d < 2 powi (ilog2 x - 53)"
  shows "fl x = of_int k * 2 powi j"
proof -
  define e where "e = ilog2 x"
  have z: "0 < of_int k * (2::rat) powi j" using assms(1) by simp
  then have pos: "0 < x" using assms(2,3) by linarith
  have nn: "0 \<le> j - e + 52" using assms(4) by (simp add: e_def)
  define m where "m = k * 2 ^ nat (j - e + 52)"
  have "of_int k * (2::rat) powi j = of_int k * (2 powi (j - e + 52) * 2 powi (e - 52))"
    by (simp add: power_int_add[symmetric])
  also have "2 powi (j - e + 52) = (2::rat) ^ nat (j - e + 52)"
    using nn by (simp add: power_int_nonneg_exp)
  finally have zm: "of_int k * (2::rat) powi j = of_int m * 2 powi (e - 52)"
    by (simp add: m_def)
  have half: "(2::rat) powi (ilog2 x - 52) / 2 = 2 powi (ilog2 x - 53)"
    by (simp add: power_int_diff)
  have "x - of_int m * 2 powi (ilog2 x - 52) = d"
    using zm assms(3) unfolding e_def by linarith
  then have "\<bar>x - of_int m * 2 powi (ilog2 x - 52)\<bar> < 2 powi (ilog2 x - 52) / 2"
    using assms(2,5) unfolding half by linarith
  from fl_near[OF pos this] show ?thesis using zm unfolding e_def by linarith
qed

lemma ilog2_less:
  assumes "0 < x" "x < 2 powi b"
  shows "ilog2 x < b"
proof -
  have "(2::rat) powi ilog2 x < 2 powi b"
    using ilog2_bounds(1)[OF assms(1)] assms(2) by linarith
  then show ?thesis by (rule two_powi_less_exp)
qed

lemma ground_y_exact:
  assumes "0 < m" "5 * m < 2 ^ 31"
  shows "ground_y (5 * m) = of_int (3 * m)"
proof -
  have h53: "5 * m < 2 ^ 53" "0 < 5 * m" using assms by simp_all
  have mr: "0 < (of_int m :: rat)" "(of_int m :: rat) < 2 ^ 31"
    using assms by (simp_all add: of_int_less_numeral_power_cancel_iff)
  have f: "float_of_int (5 * m) = of_int (5 * m)"
    by (rule float_of_int_exact[OF h53(2) h53(1)])
  \<comment> \<open>the first product\<close>
  define x1 :: rat where "x1 = of_int (5 * m) * (5854679515581645 / 2 ^ 53)"
  have x1: "x1 = of_int (13 * m) * 2 powi (-2) + of_int m / 2 ^ 53"
    by (simp add: x1_def)
  have x1pos: "0 < x1" and x1lo: "2 * of_int m \<le> x1" and x1hi: "x1 < 2 powi 51"
    using mr by (simp_all add: x1)
  have e1: "ilog2 x1 \<le> -2 + 52" using ilog2_less[OF x1pos x1hi] by simp
  have "of_int m < (2::rat) powi ilog2 x1"
    using ilog2_bounds(2)[OF x1pos] x1lo unfolding two_powi_succ by linarith
  then have d1: "of_int m / 2 ^ 53 < (2::rat) powi (ilog2 x1 - 53)"
    unfolding two_powi_53 by (simp add: divide_strict_right_mono)
  have a: "fl x1 = of_int (13 * m) * 2 powi (-2)"
    by (rule fl_drop_small[OF _ _ x1 e1 d1]) (use assms mr in simp_all)
  \<comment> \<open>the second product\<close>
  define x2 :: rat where "x2 = of_int (5 * m) * (7205759403792794 / 2 ^ 57)"
  have x2: "x2 = of_int m * 2 powi (-2) + of_int m / 2 ^ 56"
    by (simp add: x2_def)
  have x2pos: "0 < x2" and x2lo: "of_int m / 4 \<le> x2" and x2hi: "x2 < 2 powi 51"
    using mr by (simp_all add: x2)
  have e2: "ilog2 x2 \<le> -2 + 52" using ilog2_less[OF x2pos x2hi] by simp
  have "of_int m < 8 * (2::rat) powi ilog2 x2"
    using ilog2_bounds(2)[OF x2pos] x2lo unfolding two_powi_succ by linarith
  then have d2: "of_int m / 2 ^ 56 < (2::rat) powi (ilog2 x2 - 53)"
    unfolding two_powi_53 by (simp add: field_simps)
  have b: "fl x2 = of_int m * 2 powi (-2)"
    by (rule fl_drop_small[OF _ _ x2 e2 d2]) (use assms mr in simp_all)
  \<comment> \<open>the difference\<close>
  have "0 < 3 * m" "3 * m < 2 ^ 53" using assms by simp_all
  then have c: "fl (of_int (3 * m) * 2 powi 0) = of_int (3 * m) * 2 powi 0"
    by (rule fl_exact[OF _ _ refl])
  have diff: "of_int (13 * m) * 2 powi (-2) - of_int m * 2 powi (-2) = (of_int (3 * m) * 2 powi 0 :: rat)"
    by simp
  show ?thesis
    unfolding ground_y_def fsub_def fmul_def f fl_65 fl_05 x1_def[symmetric] x2_def[symmetric]
      a b diff c by simp
qed


lemma ground_y_close:
  assumes "0 < h" "h < 2 ^ 31"
  shows "\<bar>ground_y h - 3 * of_int h / 5\<bar> \<le> of_int h / 2 ^ 50"
proof -
  have h53: "h < 2 ^ 53" using assms by simp
  define H :: rat where "H = of_int h"
  have H: "0 < H" using assms by (simp add: H_def)
  have f: "float_of_int h = H"
    unfolding H_def by (rule float_of_int_exact[OF assms(1) h53])
  define x1 :: rat where "x1 = H * (5854679515581645 / 2 ^ 53)"
  define x2 :: rat where "x2 = H * (7205759403792794 / 2 ^ 57)"
  have x1pos: "0 < x1" and x2pos: "0 < x2" using H by (simp_all add: x1_def x2_def)
  have gap: "H / 2 \<le> x1 - x2" using H by (simp add: x1_def x2_def)
  have top: "x1 + x1 / 2 ^ 53 \<le> H" using H by (simp add: x1_def)
  have t1: "x1 / 2 ^ 53 \<le> H / 2 ^ 53" and t2: "x2 / 2 ^ 53 \<le> H / 2 ^ 53"
    using H by (simp_all add: x1_def x2_def)
  have t8: "H / 2 ^ 53 \<le> H / 8" using H by simp
  have d: "\<bar>x1 - x2 - 3 * H / 5\<bar> \<le> H / 2 ^ 52"
    using H by (simp add: x1_def x2_def abs_le_iff)
  have tot: "3 * (H / 2 ^ 53) + H / 2 ^ 52 \<le> H / 2 ^ 50" using H by simp
  define a b where "a = fl x1" and "b = fl x2"
  have ea: "\<bar>a - x1\<bar> \<le> x1 / 2 ^ 53" unfolding a_def by (rule fl_error(2)[OF x1pos])
  have eb: "\<bar>b - x2\<bar> \<le> x2 / 2 ^ 53" unfolding b_def by (rule fl_error(2)[OF x2pos])
  have abpos: "0 < a - b" using ea eb gap t1 t2 t8 H by linarith
  have t2': "x2 / 2 ^ 53 \<le> x2" using x2pos by simp
  have able: "a - b \<le> H" using ea eb top t2' by linarith
  have "\<bar>fl (a - b) - (a - b)\<bar> \<le> (a - b) / 2 ^ 53"
    by (rule fl_error(2)[OF abpos])
  also have "\<dots> \<le> H / 2 ^ 53" using able by (simp add: divide_right_mono)
  finally have ey: "\<bar>fl (a - b) - (a - b)\<bar> \<le> H / 2 ^ 53" .
  have y: "ground_y h = fl (a - b)"
    unfolding ground_y_def fsub_def fmul_def f fl_65 fl_05 a_def b_def x1_def x2_def ..
  show ?thesis
    unfolding y H_def[symmetric] using ea eb ey d t1 t2 tot by linarith
qed

lemma ground_y_floor:
  assumes "0 < h" "h < 2 ^ 31"
  shows "\<lfloor>ground_y h\<rfloor> = 3 * h div 5"
proof (cases "5 dvd h")
  case True
  then obtain m where m: "h = 5 * m" by (auto elim: dvdE)
  have "0 < m" "5 * m < 2 ^ 31" using assms unfolding m by simp_all
  then have "\<lfloor>ground_y (5 * m)\<rfloor> = 3 * m"
    unfolding ground_y_exact by (simp only: ground_y_exact floor_of_int)
  moreover have "3 * (5 * m) div 5 = 3 * m" by simp
  ultimately show ?thesis unfolding m by simp
next
  case False
  define k where "k = 3 * h div 5"
  define j where "j = 3 * h mod 5"
  have kj: "3 * h = 5 * k + j" unfolding k_def j_def by simp
  have "\<not> 5 dvd 3 * h" using False by presburger
  then have j: "1 \<le> j" "j \<le> 4" unfolding j_def by presburger+
  have "(3 * of_int h :: rat) = of_int (3 * h)" by simp
  also have "\<dots> = 5 * of_int k + of_int j" unfolding kj by simp
  finally have r: "3 * of_int h / 5 = (of_int k + of_int j / 5 :: rat)" by simp
  have jr: "1 \<le> (of_int j :: rat)" "(of_int j :: rat) \<le> 4" using j by simp_all
  have hr: "0 < (of_int h :: rat)" "(of_int h :: rat) < 2 ^ 31"
    using assms by (simp_all add: of_int_less_numeral_power_cancel_iff)
  have small: "(of_int h :: rat) / 2 ^ 50 < 1 / 10" using hr by simp
  from ground_y_close[OF assms] have "\<bar>ground_y h - (of_int k + of_int j / 5)\<bar> < 1 / 10"
    unfolding r using small by linarith
  then have "of_int k \<le> ground_y h" "ground_y h < of_int k + 1"
    using jr by linarith+
  then have "\<lfloor>ground_y h\<rfloor> = k" by (simp add: floor_unique)
  then show ?thesis by (simp add: k_def)
qed

lemma draw_on_blank:
  "draw_fill env \<lparr>c_mode = ''L'', c_size = sz, c_pixel = (\<lambda>xy. 0)\<rparr> prim 255 = painted env sz prim"
  by (simp add: draw_fill_def painted_def cong: if_cong)

lemma image_new_ok:
  assumes "0 \<le> w" "w \<le> 536870910" "0 \<le> h" "h \<le> 2147483647" "allocates env (w, h)"
  shows "image_new env mode (w, h) colour =
           Inr \<lparr>c_mode = mode, c_size = (w, h), c_pixel = (\<lambda>xy. colour)\<rparr>"
  using assms by (simp add: image_new_def INT_MAX_def)

lemma create_mask_ground:
  assumes "0 \<le> w" "w \<le> 536870910" "0 \<le> h" "h \<le> 2147483647" "allocates env (w, h)"
  shows "create_mask env (w, h) shape ''ground'' wld =
           (Inr (painted env (w, h)
                   (Polygon [(0, ground_y h), (0, of_int h), (of_int w, of_int h),
                             (of_int w, ground_y h)])), wld)"
  by (simp add: create_mask_def image_new_ok[OF assms] Let_def ground_y_def draw_on_blank)

lemma create_mask_pure:
  "snd (create_mask env sz shape position wld) = wld"
  "fst (create_mask env sz shape position wld') = fst (create_mask env sz shape position wld)"
  by (simp_all add: create_mask_def Let_def split: sum.splits)

lemma ground_y_3: "ground_y 3 = 4053239664633447 / 2251799813685248"
  by code_simp

lemma ground_y_round:
  assumes "0 < h" "h < 2 ^ 31"
  shows "round (ground_y h) = round (3 * of_int h / 5 :: rat)"
proof (cases "5 dvd h")
  case True
  then obtain m where m: "h = 5 * m" by (auto elim: dvdE)
  have "0 < m" "5 * m < 2 ^ 31" using assms unfolding m by simp_all
  from ground_y_exact[OF this] show ?thesis unfolding m by simp
next
  case False
  define k where "k = (6 * h + 5) div 10"
  define j where "j = (6 * h + 5) mod 10"
  have kj: "6 * h + 5 = 10 * k + j" unfolding k_def j_def by simp
  have j: "1 \<le> j" "j \<le> 9" using False unfolding j_def by presburger+
  have "(6 * of_int h + 5 :: rat) = of_int (6 * h + 5)" by simp
  also have "\<dots> = 10 * of_int k + of_int j" unfolding kj by simp
  finally have r: "3 * of_int h / 5 + 1 / 2 = (of_int k + of_int j / 10 :: rat)" by simp
  have jr: "1 \<le> (of_int j :: rat)" "(of_int j :: rat) \<le> 9" using j by simp_all
  have hr: "0 < (of_int h :: rat)" "(of_int h :: rat) < 2 ^ 31"
    using assms by (simp_all add: of_int_less_numeral_power_cancel_iff)
  have small: "(of_int h :: rat) / 2 ^ 50 < 1 / 20" using hr by simp
  from ground_y_close[OF assms]
  have c: "\<bar>(ground_y h + 1 / 2) - (of_int k + of_int j / 10)\<bar> < 1 / 20"
    using r small by linarith
  have "of_int k \<le> ground_y h + 1 / 2" "ground_y h + 1 / 2 < of_int k + 1"
    using c jr by linarith+
  then have 1: "\<lfloor>ground_y h + 1 / 2\<rfloor> = k" by (simp add: floor_unique)
  have "of_int k \<le> (3 * of_int h / 5 + 1 / 2 :: rat)" "(3 * of_int h / 5 + 1 / 2 :: rat) < of_int k + 1"
    unfolding r using jr by linarith+
  then have 2: "\<lfloor>3 * of_int h / 5 + 1 / 2 :: rat\<rfloor> = k" by (simp add: floor_unique)
  show ?thesis unfolding round_def 1 2 ..
qed

text \<open>
  C9, amended. \<open>create_mask\<close> leaves the world as it found it and returns the same
  thing from every state of the world, for every size. For a size of at least 1 x 1 it
  returns a mask exactly when the width is at most \<open>INT_MAX / 4 - 1 = 536870910\<close>, the
  height at most \<open>INT_MAX = 2147483647\<close> and Pillow gets the memory for the image: the mask
  then has mode \<^verbatim>\<open>L\<close> (one channel), the size given, and every pixel 0 or 255. For every
  other size of at least 1 x 1 it raises \<^verbatim>\<open>OverflowError\<close> or \<^verbatim>\<open>MemoryError\<close>.
\<close>

theorem mask_well_formed:
  assumes "1 \<le> w" "1 \<le> h"
  shows "snd (create_mask env (w, h) shape position wld) = wld
       \<and> (\<forall>wld'. fst (create_mask env (w, h) shape position wld')
                   = fst (create_mask env (w, h) shape position wld))
       \<and> (if w \<le> 536870910 \<and> h \<le> 2147483647 \<and> allocates env (w, h)
          then \<exists>m. fst (create_mask env (w, h) shape position wld) = Inr m
                 \<and> c_mode m = ''L'' \<and> c_size m = (w, h)
                 \<and> (\<forall>xy. c_pixel m xy = 0 \<or> c_pixel m xy = 255)
          else fst (create_mask env (w, h) shape position wld) = Inl OverflowError
             \<or> fst (create_mask env (w, h) shape position wld) = Inl MemoryError)"
proof (intro conjI allI)
  show "snd (create_mask env (w, h) shape position wld) = wld"
    by (rule create_mask_pure(1))
  show "fst (create_mask env (w, h) shape position wld')
          = fst (create_mask env (w, h) shape position wld)" for wld'
    by (rule create_mask_pure(2))
  show "if w \<le> 536870910 \<and> h \<le> 2147483647 \<and> allocates env (w, h)
        then \<exists>m. fst (create_mask env (w, h) shape position wld) = Inr m
               \<and> c_mode m = ''L'' \<and> c_size m = (w, h)
               \<and> (\<forall>xy. c_pixel m xy = 0 \<or> c_pixel m xy = 255)
        else fst (create_mask env (w, h) shape position wld) = Inl OverflowError
           \<or> fst (create_mask env (w, h) shape position wld) = Inl MemoryError"
  proof (cases "w \<le> 536870910 \<and> h \<le> 2147483647 \<and> allocates env (w, h)")
    case True
    then have "image_new env ''L'' (w, h) 0 =
                 Inr \<lparr>c_mode = ''L'', c_size = (w, h), c_pixel = (\<lambda>xy. 0)\<rparr>"
      using assms by (intro image_new_ok) simp_all
    then show ?thesis using True
      by (simp add: create_mask_def Let_def draw_fill_def)
  next
    case False
    then have "image_new env ''L'' (w, h) 0 = Inl OverflowError
             \<or> image_new env ''L'' (w, h) 0 = Inl MemoryError"
      using assms by (auto simp add: image_new_def INT_MAX_def)
    then show ?thesis using False
      by (auto simp add: create_mask_def)
  qed
qed

theorem mask_well_formed_witness:
  "snd (create_mask env0 (800, 600) ''circle'' ''center'' world0) = world0
   \<and> (\<exists>m. fst (create_mask env0 (800, 600) ''circle'' ''center'' world0) = Inr m
          \<and> c_mode m = ''L'' \<and> c_size m = (800, 600)
          \<and> (\<forall>xy. c_pixel m xy = 0 \<or> c_pixel m xy = 255))
   \<and> (fst (create_mask env0 (2147483648, 1) ''circle'' ''center'' world0) = Inl OverflowError
      \<or> fst (create_mask env0 (2147483648, 1) ''circle'' ''center'' world0) = Inl MemoryError)"
  using mask_well_formed[of 800 600 env0 "''circle''" "''center''" world0]
    mask_well_formed[of 2147483648 1 env0 "''circle''" "''center''" world0]
  by (simp add: env0_def)

text \<open>
  The claim as worded fails at the first side that does not fit a C \<^verbatim>\<open>int\<close>: in every
  environment, for every shape and position, \<open>create_mask\<close> on the size
  \<open>(2147483648, 1)\<close> raises \<^verbatim>\<open>OverflowError\<close> and returns no mask.
\<close>

theorem mask_overflow_raises:
  "\<forall>env shape position wld.
     create_mask env (2147483648, 1) shape position wld = (Inl OverflowError, wld)"
  by (simp add: create_mask_def image_new_def INT_MAX_def)

text \<open>
  C5, amended. For a size \<open>(w, h)\<close> with \<open>1 \<le> w \<le> 536870910\<close> and \<open>1 \<le> h \<le> 2147483647\<close>
  for which Pillow gets the memory, the mask is a blank mode-\<^verbatim>\<open>L\<close> image of that size on
  which one primitive is filled with 255:
  \<^item> away from \<^verbatim>\<open>ground\<close>, shape \<^verbatim>\<open>rectangle\<close>: the rectangle with corners
    \<open>(w/4, h/4)\<close> and \<open>(3w/4, 3h/4)\<close>, the float products being exact;
  \<^item> away from \<^verbatim>\<open>ground\<close>, any other shape: the ellipse inscribed in the square of
    half-side \<open>min w h div 4\<close> around \<open>(w div 2, h div 2)\<close>, that is the disk of that
    radius and centre;
  \<^item> \<^verbatim>\<open>ground\<close>, any shape: the quadrilateral \<open>(0, y), (0, h), (w, h), (w, y)\<close>, full width
    and down to the bottom, whose top \<open>y\<close> is the float \<^verbatim>\<open>h*0.65 - h*0.05\<close>. That float equals
    \<open>0.6 h\<close> when \<open>0.6 h\<close> is an integer, never differs from it by more than \<open>h / 2^50\<close>,
    and truncates and rounds to the same integer as \<open>0.6 h\<close>: the same pixel row.

  Which pixels a primitive covers is the rasteriser's, \<open>covers env\<close>.
\<close>

theorem mask_regions:
  assumes "1 \<le> w" "w \<le> 536870910" "1 \<le> h" "h \<le> 2147483647" "allocates env (w, h)"
  shows "(position \<noteq> ''ground'' \<longrightarrow>
            create_mask env (w, h) ''rectangle'' position wld =
              (Inr (painted env (w, h)
                      (Rectangle (of_int w / 4) (of_int h / 4) (3 * of_int w / 4) (3 * of_int h / 4))),
               wld))
       \<and> (position \<noteq> ''ground'' \<and> shape \<noteq> ''rectangle'' \<longrightarrow>
            create_mask env (w, h) shape position wld =
              (Inr (painted env (w, h)
                      (Ellipse (of_int (w div 2 - min w h div 4)) (of_int (h div 2 - min w h div 4))
                               (of_int (w div 2 + min w h div 4)) (of_int (h div 2 + min w h div 4)))),
               wld))
       \<and> (\<exists>y. create_mask env (w, h) shape ''ground'' wld =
                  (Inr (painted env (w, h)
                          (Polygon [(0, y), (0, of_int h), (of_int w, of_int h), (of_int w, y)])),
                   wld)
              \<and> \<bar>y - 3 * of_int h / 5\<bar> \<le> of_int h / 2 ^ 50
              \<and> \<lfloor>y\<rfloor> = \<lfloor>3 * of_int h / 5 :: rat\<rfloor>
              \<and> round y = round (3 * of_int h / 5 :: rat)
              \<and> (5 dvd h \<longrightarrow> y = 3 * of_int h / 5))"
proof (intro conjI impI)
  have w0: "0 < w" and h0: "0 < h" using assms by simp_all
  have w31: "w < 2 ^ 31" and h31: "h < 2 ^ 31" using assms by simp_all
  have new: "image_new env ''L'' (w, h) 0 =
               Inr \<lparr>c_mode = ''L'', c_size = (w, h), c_pixel = (\<lambda>xy. 0)\<rparr>"
    using assms by (intro image_new_ok) simp_all
  note qw = fmul_quarter[OF w0 w31] and qh = fmul_quarter[OF h0 h31]
  show "create_mask env (w, h) ''rectangle'' position wld =
          (Inr (painted env (w, h)
                  (Rectangle (of_int w / 4) (of_int h / 4) (3 * of_int w / 4) (3 * of_int h / 4))),
           wld)"
    if "position \<noteq> ''ground''"
    using that
    by (simp add: create_mask_def new Let_def draw_on_blank qw qh)
  show "create_mask env (w, h) shape position wld =
          (Inr (painted env (w, h)
                  (Ellipse (of_int (w div 2 - min w h div 4)) (of_int (h div 2 - min w h div 4))
                           (of_int (w div 2 + min w h div 4)) (of_int (h div 2 + min w h div 4)))),
           wld)"
    if "position \<noteq> ''ground'' \<and> shape \<noteq> ''rectangle''"
    using that
    by (simp add: create_mask_def new Let_def draw_on_blank)
  have fl35: "\<lfloor>3 * of_int h / 5 :: rat\<rfloor> = 3 * h div 5"
  proof -
    have "(3 * of_int h / 5 :: rat) = of_int (3 * h) / of_int 5" by simp
    then show ?thesis by (simp only: floor_divide_of_int_eq)
  qed
  have ex: "ground_y h = 3 * of_int h / 5" if "5 dvd h"
  proof -
    from that obtain m where m: "h = 5 * m" by (auto elim: dvdE)
    have "0 < m" "5 * m < 2 ^ 31" using h0 h31 unfolding m by simp_all
    from ground_y_exact[OF this] show ?thesis unfolding m by simp
  qed
  have g: "create_mask env (w, h) shape ''ground'' wld =
             (Inr (painted env (w, h)
                     (Polygon [(0, ground_y h), (0, of_int h), (of_int w, of_int h),
                               (of_int w, ground_y h)])), wld)"
    using assms by (intro create_mask_ground) simp_all
  show "\<exists>y. create_mask env (w, h) shape ''ground'' wld =
                  (Inr (painted env (w, h)
                          (Polygon [(0, y), (0, of_int h), (of_int w, of_int h), (of_int w, y)])),
                   wld)
              \<and> \<bar>y - 3 * of_int h / 5\<bar> \<le> of_int h / 2 ^ 50
              \<and> \<lfloor>y\<rfloor> = \<lfloor>3 * of_int h / 5 :: rat\<rfloor>
              \<and> round y = round (3 * of_int h / 5 :: rat)
              \<and> (5 dvd h \<longrightarrow> y = 3 * of_int h / 5)"
    apply (rule exI[of _ "ground_y h"])
    using g ground_y_close[OF h0 h31]
      ground_y_floor[OF h0 h31] ground_y_round[OF h0 h31] ex fl35
    by simp
qed

theorem mask_regions_witness:
  "create_mask (env0\<lparr>covers := centre_covers\<rparr>) (800, 600) ''rectangle'' ''center'' world0
     = (Inr (painted (env0\<lparr>covers := centre_covers\<rparr>) (800, 600) (Rectangle 200 150 600 450)),
        world0)
   \<and> create_mask (env0\<lparr>covers := centre_covers\<rparr>) (800, 600) ''circle'' ''center'' world0
     = (Inr (painted (env0\<lparr>covers := centre_covers\<rparr>) (800, 600) (Ellipse 250 150 550 450)),
        world0)
   \<and> create_mask (env0\<lparr>covers := centre_covers\<rparr>) (800, 600) ''circle'' ''ground'' world0
     = (Inr (painted (env0\<lparr>covers := centre_covers\<rparr>) (800, 600)
               (Polygon [(0, 360), (0, 600), (800, 600), (800, 360)])),
        world0)
   \<and> c_pixel (painted (env0\<lparr>covers := centre_covers\<rparr>) (800, 600)
                (Rectangle 200 150 600 450)) (251, 151) = 255
   \<and> c_pixel (painted (env0\<lparr>covers := centre_covers\<rparr>) (800, 600)
                (Ellipse 250 150 550 450)) (251, 151) = 0
   \<and> c_pixel (painted (env0\<lparr>covers := centre_covers\<rparr>) (800, 600)
                (Ellipse 250 150 550 450)) (400, 300) = 255
   \<and> c_pixel (painted (env0\<lparr>covers := centre_covers\<rparr>) (800, 600)
                (Polygon [(0, 360), (0, 600), (800, 600), (800, 360)])) (400, 359) = 0
   \<and> c_pixel (painted (env0\<lparr>covers := centre_covers\<rparr>) (800, 600)
                (Polygon [(0, 360), (0, 600), (800, 600), (800, 360)])) (400, 360) = 255"
proof -
  have a: "allocates (env0\<lparr>covers := centre_covers\<rparr>) (800, 600)"
    by (simp add: env0_def)
  have p: "c_pixel (painted (env0\<lparr>covers := centre_covers\<rparr>) (800, 600)
                      (Rectangle 200 150 600 450)) (251, 151) = 255"
    "c_pixel (painted (env0\<lparr>covers := centre_covers\<rparr>) (800, 600)
                (Ellipse 250 150 550 450)) (251, 151) = 0"
    "c_pixel (painted (env0\<lparr>covers := centre_covers\<rparr>) (800, 600)
                (Ellipse 250 150 550 450)) (400, 300) = 255"
    "c_pixel (painted (env0\<lparr>covers := centre_covers\<rparr>) (800, 600)
                (Polygon [(0, 360), (0, 600), (800, 600), (800, 360)])) (400, 359) = 0"
    "c_pixel (painted (env0\<lparr>covers := centre_covers\<rparr>) (800, 600)
                (Polygon [(0, 360), (0, 600), (800, 600), (800, 360)])) (400, 360) = 255"
    by (simp_all add: painted_def centre_covers_def power2_eq_square)
  show ?thesis
    using mask_regions[of 800 600 "env0\<lparr>covers := centre_covers\<rparr>" "''center''" world0
        "''circle''", OF _ _ _ _ a] p
    by auto
qed

text \<open>
  The claim as worded fails in two ways. At the first width above \<open>INT_MAX / 4 - 1\<close>, in
  every environment and for every shape and position, \<open>create_mask\<close> on the size
  \<open>(536870911, 1)\<close> raises \<^verbatim>\<open>MemoryError\<close> and there is no mask. And the top of the ground
  region is the float \<^verbatim>\<open>h*0.65 - h*0.05\<close>, not \<open>0.6 h\<close>: for the height 3 it is
  \<open>4053239664633447 / 2^51\<close>, which prints as \<^verbatim>\<open>1.8000000000000003\<close>, where \<open>0.6 h\<close> is
  \<open>9/5\<close>.
\<close>

theorem mask_memory_raises:
  "(\<forall>env shape position wld.
      create_mask env (536870911, 1) shape position wld = (Inl MemoryError, wld))
   \<and> create_mask env0 (1, 3) ''rectangle'' ''ground'' world0 =
       (Inr (painted env0 (1, 3)
               (Polygon [(0, 4053239664633447 / 2251799813685248), (0, 3), (1, 3),
                         (1, 4053239664633447 / 2251799813685248)])), world0)
   \<and> (4053239664633447 / 2251799813685248 :: rat) - 3 * 3 / 5 = 3 / 11258999068426240"
proof (intro conjI)
  show "\<forall>env shape position wld.
          create_mask env (536870911, 1) shape position wld = (Inl MemoryError, wld)"
    by (simp add: create_mask_def image_new_def INT_MAX_def)
  have a: "allocates env0 (1, 3)" by (simp add: env0_def)
  have "create_mask env0 (1, 3) ''rectangle'' ''ground'' world0 =
          (Inr (painted env0 (1, 3)
                  (Polygon [(0, ground_y 3), (0, of_int 3), (of_int 1, of_int 3),
                            (of_int 1, ground_y 3)])), world0)"
    by (rule create_mask_ground[OF _ _ _ _ a]) simp_all
  then show "create_mask env0 (1, 3) ''rectangle'' ''ground'' world0 =
       (Inr (painted env0 (1, 3)
               (Polygon [(0, 4053239664633447 / 2251799813685248), (0, 3), (1, 3),
                         (1, 4053239664633447 / 2251799813685248)])), world0)"
    by (simp add: ground_y_3)
  show "(4053239664633447 / 2251799813685248 :: rat) - 3 * 3 / 5 = 3 / 11258999068426240"
    by simp
qed



section \<open>Properties of the result pipeline\<close>

text \<open>
  C8. Let the download succeed, let conversion to WebP be asked for in a mode that
  produces bytes (a truthy output path, or base64), and let the conversion raise at any
  of its steps. Then \<open>handle_image_url\<close> returns what it returns when no conversion is
  asked for, and writes the same files: the conversion's failure only adds a warning
  on stderr. In base64 mode that is the dict with the format detected from the content
  type and the base64 of the downloaded bytes; in save mode, when the write succeeds,
  the downloaded bytes go to the path the caller gave, its extension untouched.
\<close>

theorem conversion_failure_falls_back:
  assumes "download env image_url = Downloaded content_type image_bytes"
    and "str_truthy output_path \<or> fetch_base64"
    and "convert_webp env image_bytes (save_format_of content_type) = Inl convert_err"
  shows "fst (handle_image_url env image_url output_path fetch_base64 True w)
           = fst (handle_image_url env image_url output_path fetch_base64 False w)
       \<and> files (snd (handle_image_url env image_url output_path fetch_base64 True w))
           = files (snd (handle_image_url env image_url output_path fetch_base64 False w))
       \<and> (\<not> str_truthy output_path \<longrightarrow>
            handle_image_url env image_url output_path fetch_base64 True w =
              (Inr (JObj [(''status'', JStr ''success''),
                          (''format'', JStr (save_format_of content_type)),
                          (''data'', JStr (b64encode env image_bytes))]),
               print_stderr (ConvertWarning convert_err)
                 (w\<lparr>requests := requests w @ [Download image_url]\<rparr>)))
       \<and> (str_truthy output_path
            \<and> write_file env (abspath env (case output_path of None \<Rightarrow> [] | Some p \<Rightarrow> p)) image_bytes = None \<longrightarrow>
            fst (handle_image_url env image_url output_path fetch_base64 True w) =
              Inr (JObj [(''status'', JStr ''saved''),
                         (''path'', JStr (abspath env (case output_path of None \<Rightarrow> [] | Some p \<Rightarrow> p)))])
            \<and> files (snd (handle_image_url env image_url output_path fetch_base64 True w)) =
                files w @ [(abspath env (case output_path of None \<Rightarrow> [] | Some p \<Rightarrow> p), image_bytes)])"
  using assms
  by (auto simp: handle_image_url_def Let_def print_stderr_def save_format_of_def
      split: option.splits)

theorem conversion_failure_falls_back_witness:
  "handle_image_url
     (env0\<lparr>download := (\<lambda>url. Downloaded (Some ''image/png'') [137, 80, 78, 71]),
           b64encode := (\<lambda>data. ''iVBORw=='')\<rparr>)
     ''https://example.com/sample.png'' None True True world0
   = (Inr (JObj [(''status'', JStr ''success''), (''format'', JStr ''png''),
                 (''data'', JStr ''iVBORw=='')]),
      world0\<lparr>requests := [Download ''https://example.com/sample.png''],
             stderr := [ConvertWarning OSError]\<rparr>)"
  using conversion_failure_falls_back[of
      "env0\<lparr>download := (\<lambda>url. Downloaded (Some ''image/png'') [137, 80, 78, 71]),
            b64encode := (\<lambda>data. ''iVBORw=='')\<rparr>"
      "''https://example.com/sample.png''" "Some ''image/png''" "[137, 80, 78, 71]"
      None True OSError world0]
  by (simp add: env0_def world0_def convert_webp_def str_truthy_def print_stderr_def
      save_format_of_def last_segment_def lower_def lower_char_def)


section \<open>Properties of the rescaled size\<close>
























end
